theory Spec2Isabelle
  imports Main "HOL-Library.Char_ord" "HOL-Library.List_Lexorder" "HOL-Library.AList"
    "HOL-Library.Sublist"
begin

section \<open>Bytes, errors and the string helpers of the Go standard library\<close>

text \<open>
  A Go \<open>string\<close> is a sequence of bytes, and so is a HOL \<open>string\<close>. The four bytes the wire
  format depends on get names. The functions of the Go library that the store calls on
  strings and bytes are defined here as the library's current sources define them; the
  text a library error carries is indicative only.
\<close>

abbreviation CR :: char where "CR \<equiv> CHR 0x0D"
abbreviation LF :: char where "LF \<equiv> CHR 0x0A"
abbreviation TAB :: char where "TAB \<equiv> CHR 0x09"
abbreviation SP :: char where "SP \<equiv> CHR 0x20"

text \<open>
  Errors of the underlying filesystem: \<open>vfs.IsNotExist\<close> tells \<open>ENOENT\<close> from every other
  failure, which the store passes through.
\<close>

datatype io_error = ENOENT | EIO string

text \<open>
  The error values of the package (\<open>ErrNotFoundInStore\<close> ... \<open>ErrFoundInStorePrivate\<close>, lines
  59-63 of external.go) and the errors of the libraries the store returns unchanged. A nil
  pointer dereference is a panic of the Go runtime; it is a value here so that the branch
  is visible.
\<close>

datatype error =
    ErrNotFoundInStore
  | ErrFoundWithZeroInStore
  | ErrFoundInStore
  | ErrFoundInStorePrivate
  | IOError io_error
  | EOF
  | MalformedRequestLine string
  | MalformedResponse string
  | MalformedStatusCode string
  | ProtocolError string
  | InvalidMethod string
  | URLError string
  | ReadError string
  | TransportError string
  | NilDereference

definition IsNotExist :: "error \<Rightarrow> bool" where
  "IsNotExist e = (e = IOError ENOENT)"

subsection \<open>strings\<close>


text \<open>
  \<open>strings.SplitN(s, sep, n)\<close> for a separator of one byte, which is how the store calls it
  (\<open>" "\<close>): at most \<open>n\<close> pieces, the last one the unsplit remainder.
\<close>

fun SplitN :: "string \<Rightarrow> char \<Rightarrow> nat \<Rightarrow> string list" where
  "SplitN s sep 0 = []"
| "SplitN s sep (Suc 0) = [s]"
| "SplitN s sep (Suc (Suc n)) =
     (if sep \<in> set s
      then takeWhile (\<lambda>c. c \<noteq> sep) s # SplitN (tl (dropWhile (\<lambda>c. c \<noteq> sep) s)) sep (Suc n)
      else [s])"

subsection \<open>strconv and fmt\<close>

definition digit_char :: "nat \<Rightarrow> char" where
  "digit_char d = char_of (48 + d)"

fun decimal :: "nat \<Rightarrow> string" where
  "decimal n = (if n < 10 then [digit_char n] else decimal (n div 10) @ [digit_char (n mod 10)])"

declare decimal.simps [simp del]

text \<open>\<open>fmt.Sprintf("%d", n)\<close>.\<close>

definition Sprintf_d :: "int \<Rightarrow> string" where
  "Sprintf_d n = (if n < 0 then CHR ''-'' # decimal (nat (- n)) else decimal (nat n))"

definition isDigit :: "char \<Rightarrow> bool" where
  "isDigit c = (CHR ''0'' \<le> c \<and> c \<le> CHR ''9'')"

definition digit_val :: "char \<Rightarrow> int" where
  "digit_val c = of_char c - 48"

definition parse_digits :: "string \<Rightarrow> int" where
  "parse_digits ds = foldl (\<lambda>acc c. 10 * acc + digit_val c) 0 ds"

text \<open>
  \<open>strconv.Atoi\<close>: an optional sign, then one or more decimal digits; the value has to fit
  Go's \<open>int\<close>, taken as 64 bits wide. \<open>None\<close> is the syntax or range error.
\<close>

definition Atoi :: "string \<Rightarrow> int option" where
  "Atoi s =
     (let neg = (s \<noteq> [] \<and> hd s = CHR ''-'');
          ds = (if s \<noteq> [] \<and> (hd s = CHR ''-'' \<or> hd s = CHR ''+'') then tl s else s) in
      if ds = [] then None
      else if \<not> list_all isDigit ds then None
      else (let v = (if neg then - parse_digits ds else parse_digits ds) in
            if v < - (2 ^ 63) then None else if 2 ^ 63 \<le> v then None else Some v))"

subsection \<open>bufio and net/textproto\<close>

text \<open>
  \<open>bufio.Reader.ReadLine\<close> returns the bytes up to the next \<open>\n\<close> without the \<open>\n\<close> and
  without one \<open>\r\<close> before it; bytes after the last \<open>\n\<close> are a last line, returned as they
  are; at the end of the input it returns \<open>io.EOF\<close>. \<open>splitLines [] r\<close> is the list of lines a
  reader over the bytes \<open>r\<close> returns before \<open>io.EOF\<close>, and a \<open>textproto.Reader\<close> is modelled by
  the lines it has not read yet.
\<close>

definition dropCR :: "string \<Rightarrow> string" where
  "dropCR l = (if l \<noteq> [] \<and> last l = CR then butlast l else l)"

fun splitLines :: "string \<Rightarrow> string \<Rightarrow> string list" where
  "splitLines acc [] = (if acc = [] then [] else [acc])"
| "splitLines acc (c # cs) =
     (if c = LF then dropCR acc # splitLines [] cs else splitLines (acc @ [c]) cs)"

definition textproto_NewReader :: "string \<Rightarrow> string list" where
  "textproto_NewReader r = splitLines [] r"

text \<open>\<open>textproto.Reader.ReadLine\<close>: the next line and the reader after it.\<close>

definition ReadLine :: "string list \<Rightarrow> error + (string \<times> string list)" where
  "ReadLine tp = (case tp of [] \<Rightarrow> Inl EOF | l # ls \<Rightarrow> Inr (l, ls))"

definition isSpaceOrTab :: "char \<Rightarrow> bool" where
  "isSpaceOrTab c = (c = SP \<or> c = TAB)"

text \<open>\<open>trim\<close> of net/textproto: spaces and tabs off both ends.\<close>

definition trim :: "string \<Rightarrow> string" where
  "trim s = rev (dropWhile isSpaceOrTab (rev (dropWhile isSpaceOrTab s)))"

text \<open>
  The continuation lines of \<open>readContinuedLineSlice\<close>: while the next line starts with a space
  or a tab (\<open>skipSpace() > 0\<close>), a space and the trimmed line are appended to the buffer.
\<close>

fun readContinuation :: "string \<Rightarrow> string list \<Rightarrow> string \<times> string list" where
  "readContinuation buf [] = (buf, [])"
| "readContinuation buf (l # ls) =
     (if l \<noteq> [] \<and> isSpaceOrTab (hd l)
      then readContinuation (buf @ [SP] @ trim l) ls
      else (buf, l # ls))"

text \<open>
  \<open>readContinuedLineSlice(lim, mustHaveFieldNameColon)\<close>: a blank line is returned as it is;
  a first line without a colon is a protocol error; otherwise the trimmed line joined with
  its continuation lines.
\<close>

definition readContinuedLineSlice :: "string list \<Rightarrow> (error + string) \<times> string list" where
  "readContinuedLineSlice tp =
     (case tp of
        [] \<Rightarrow> (Inl EOF, [])
      | l # ls \<Rightarrow>
          if l = [] then (Inr [], ls)
          else if CHR '':'' \<notin> set l
          then (Inl (ProtocolError (''malformed MIME header: missing colon: '' @ l)), ls)
          else (case readContinuation (trim l) ls of (buf, rest) \<Rightarrow> (Inr buf, rest)))"

text \<open>
  The token bytes of RFC 7230 (\<open>httpguts.IsTokenRune\<close>, \<open>validHeaderFieldByte\<close>): letters,
  digits and \<open>! # $ % & ' * + - . ^ _ ` | ~\<close>.
\<close>

definition isLower :: "char \<Rightarrow> bool" where
  "isLower c = (CHR ''a'' \<le> c \<and> c \<le> CHR ''z'')"

definition isUpper :: "char \<Rightarrow> bool" where
  "isUpper c = (CHR ''A'' \<le> c \<and> c \<le> CHR ''Z'')"

definition isTokenByte :: "char \<Rightarrow> bool" where
  "isTokenByte c =
     (isLower c \<or> isUpper c \<or> isDigit c \<or>
      c \<in> set [CHR ''!'', CHR ''#'', CHR ''$'', CHR ''%'', CHR ''&'', CHR 0x27, CHR ''*'',
                 CHR ''+'', CHR ''-'', CHR ''.'', CHR ''^'', CHR ''_'', CHR 0x60, CHR ''|'',
                 CHR ''~''])"

text \<open>
  \<open>validHeaderValueByte\<close>: every byte but the control bytes other than tab, and DEL.
\<close>

definition validHeaderValueByte :: "char \<Rightarrow> bool" where
  "validHeaderValueByte c = (c = TAB \<or> (SP \<le> c \<and> c \<noteq> CHR 0x7F))"

text \<open>
  The canonical form of a header key: the first letter and every letter after a dash in
  upper case, the others in lower case.
\<close>

fun canonicalize :: "bool \<Rightarrow> string \<Rightarrow> string" where
  "canonicalize upper [] = []"
| "canonicalize upper (c # cs) =
     (let c' = (if upper \<and> isLower c then char_of (of_char c - (32::nat))
                else if \<not> upper \<and> isUpper c then char_of (of_char c + (32::nat))
                else c)
      in c' # canonicalize (c' = CHR ''-'') cs)"

text \<open>
  \<open>canonicalMIMEHeaderKey\<close>: the key and whether it is acceptable. An empty key, or one with
  a byte that is neither a token byte nor a space, is not; a key with a space is accepted
  and left as it is; any other key is canonicalized.
\<close>

definition canonicalMIMEHeaderKey :: "string \<Rightarrow> string \<times> bool" where
  "canonicalMIMEHeaderKey a =
     (if a = [] then ([], False)
      else if list_ex (\<lambda>c. \<not> isTokenByte c \<and> c \<noteq> SP) a then (a, False)
      else if SP \<in> set a then (a, True)
      else (canonicalize True a, True))"

text \<open>
  \<open>http.Header\<close> and \<open>textproto.MIMEHeader\<close> are \<open>map[string][]string\<close>: an association
  list with one entry per key. The order of the entries is not observable in Go, so two
  header blocks are the same map when \<open>map_of\<close> agrees on them.
\<close>

type_synonym http_Header = "(string \<times> string list) list"

text \<open>\<open>m[key] = append(m[key], value)\<close>.\<close>

definition header_add :: "http_Header \<Rightarrow> string \<Rightarrow> string \<Rightarrow> http_Header" where
  "header_add m key v =
     (case map_of m key of
        None \<Rightarrow> m @ [(key, [v])]
      | Some vv \<Rightarrow> AList.update key (vv @ [v]) m)"

text \<open>\<open>bytes.Cut(kv, ":")\<close>.\<close>

definition Cut :: "string \<Rightarrow> char \<Rightarrow> (string \<times> string) option" where
  "Cut s sep =
     (if sep \<in> set s
      then Some (takeWhile (\<lambda>c. c \<noteq> sep) s, tl (dropWhile (\<lambda>c. c \<noteq> sep) s))
      else None)"

lemma readContinuation_length: "length (snd (readContinuation buf ls)) \<le> length ls"
  by (induction ls arbitrary: buf) (auto intro: le_SucI)

lemma readContinuedLineSlice_shorter:
  "readContinuedLineSlice tp = (Inr kv, rest) \<Longrightarrow> length rest < length tp"
proof (cases tp)
  case Nil
  assume "readContinuedLineSlice tp = (Inr kv, rest)"
  with Nil show ?thesis by (simp add: readContinuedLineSlice_def)
next
  case (Cons l ls)
  assume r: "readContinuedLineSlice tp = (Inr kv, rest)"
  have "length (snd (readContinuation (trim l) ls)) \<le> length ls"
    by (rule readContinuation_length)
  with r Cons show ?thesis
    by (auto simp: readContinuedLineSlice_def split: if_splits prod.splits)
qed

text \<open>
  The loop of \<open>readMIMEHeader\<close>: a blank line ends the block; each other line is cut at its
  first colon, its key canonicalized, its value checked and stripped of leading spaces
  and tabs, and appended to the values of the key.
\<close>

function readMIMEHeaderLoop :: "http_Header \<Rightarrow> string list \<Rightarrow> http_Header \<times> error option" where
  "readMIMEHeaderLoop m tp =
     (case readContinuedLineSlice tp of
        (Inl err, rest) \<Rightarrow> (m, Some err)
      | (Inr kv, rest) \<Rightarrow>
          if kv = [] then (m, None)
          else (case Cut kv (CHR '':'') of
                  None \<Rightarrow> (m, Some (ProtocolError (''malformed MIME header line: '' @ kv)))
                | Some (k, v) \<Rightarrow>
                    (case canonicalMIMEHeaderKey k of
                       (key, ok) \<Rightarrow>
                         if \<not> ok
                         then (m, Some (ProtocolError (''malformed MIME header line: '' @ kv)))
                         else if \<not> list_all validHeaderValueByte v
                         then (m, Some (ProtocolError (''malformed MIME header line: '' @ kv)))
                         else if key = [] then readMIMEHeaderLoop m rest
                         else readMIMEHeaderLoop
                                (header_add m key (dropWhile isSpaceOrTab v)) rest)))"
  by pat_completeness auto
termination
  by (relation "measure (\<lambda>(m, tp). length tp)")
     (auto dest!: readContinuedLineSlice_shorter[OF sym])

declare readMIMEHeaderLoop.simps [simp del]

text \<open>
  \<open>textproto.Reader.ReadMIMEHeader\<close>: a first line that starts with a space or a tab is a
  protocol error; otherwise the loop, from the empty map.
\<close>

definition ReadMIMEHeader :: "string list \<Rightarrow> http_Header \<times> error option" where
  "ReadMIMEHeader tp =
     (case tp of
        l # ls \<Rightarrow>
          if l \<noteq> [] \<and> isSpaceOrTab (hd l)
          then ([], Some (ProtocolError (''malformed MIME header initial line: '' @ l)))
          else readMIMEHeaderLoop [] tp
      | [] \<Rightarrow> readMIMEHeaderLoop [] tp)"

subsection \<open>net/http: writing a header block\<close>

definition headerNewlineToSpace :: "string \<Rightarrow> string" where
  "headerNewlineToSpace v = map (\<lambda>c. if c = LF \<or> c = CR then SP else c) v"

definition isASCIISpace :: "char \<Rightarrow> bool" where
  "isASCIISpace c = (c = SP \<or> c = TAB \<or> c = LF \<or> c = CR)"

definition TrimString :: "string \<Rightarrow> string" where
  "TrimString s = rev (dropWhile isASCIISpace (rev (dropWhile isASCIISpace s)))"

definition ValidHeaderFieldName :: "string \<Rightarrow> bool" where
  "ValidHeaderFieldName k = (k \<noteq> [] \<and> list_all isTokenByte k)"

text \<open>
  \<open>http.Header.Write\<close>: the keys in sorted order; a key that is not a valid field name is
  skipped; each value, with its line breaks replaced by spaces and trimmed, on a line
  \<open>key: value\r\n\<close>. Writing to a \<open>bytes.Buffer\<close> cannot fail.
\<close>

definition header_line :: "string \<Rightarrow> string \<Rightarrow> string" where
  "header_line k v = k @ '': '' @ TrimString (headerNewlineToSpace v) @ [CR, LF]"

definition Header_Write :: "http_Header \<Rightarrow> string" where
  "Header_Write h =
     concat (map (\<lambda>(k, vs). if ValidHeaderFieldName k then concat (map (header_line k) vs) else [])
                 (sort_key fst h))"

text \<open>\<open>headersToWriter\<close> (external.go, 570-577): the header block and a blank line.\<close>

definition headersToWriter :: "http_Header \<Rightarrow> string" where
  "headersToWriter h = Header_Write h @ [CR, LF]"

subsection \<open>net/url and net/http: requests and responses\<close>

text \<open>
  \<open>url.URL\<close>, with \<open>IsAbs\<close> as net/url defines it. Parsing and printing a URL
  (\<open>url.Parse\<close>, \<open>URL.String\<close>) are functions of the library, outside the repository: they are
  parameters, collected with the other library functions in \<open>env\<close> below.
\<close>

record url =
  Scheme :: string
  Opaque :: string
  User :: "string option"
  Host :: string
  Path :: string
  RawQuery :: string
  Fragment :: string

definition IsAbs :: "url \<Rightarrow> bool" where
  "IsAbs u = (Scheme u \<noteq> [])"

text \<open>The fields of \<open>http.Request\<close> that the store reads or writes.\<close>

record request =
  Method :: string
  URL :: url
  Proto :: string
  Header :: http_Header
  Host :: string
  RequestURI :: string

text \<open>
  A network body (\<open>io.ReadCloser\<close>): the bytes it delivers, then the end of the stream or a
  read error; and whether it has been closed.
\<close>

record reader =
  data :: string
  failure :: "string option"
  closed :: bool

text \<open>The fields of \<open>http.Response\<close> that the store reads.\<close>

record http_Response =
  StatusCode :: int
  Header :: http_Header
  Body :: reader

text \<open>\<open>Header\<close> of external.go (88-91): a header block and a status code.\<close>

record Header =
  Header :: http_Header
  StatusCode :: int

text \<open>
  The functions of the Go library and of the network client that the store calls and that
  are taken as parameters: the Unicode branch of \<open>strings.ToLower\<close>; the digests
  (\<open>h.Sum(nil)\<close> after writing the key to a new hash) of crypto/sha256, sha512, sha1, md5
  and x/crypto/md4; \<open>url.Parse\<close> and
  \<open>URL.String\<close>; \<open>http.StatusText\<close>; \<open>path.Dir\<close>; and \<open>http.Client.Do\<close>, which returns a
  response, an error text, or both.
\<close>

record env =
  unicode_ToLower :: "string \<Rightarrow> string"
  sha256_Sum224 :: "string \<Rightarrow> string"
  sha512_Sum384 :: "string \<Rightarrow> string"
  sha512_Sum512 :: "string \<Rightarrow> string"
  sha1_Sum :: "string \<Rightarrow> string"
  md5_Sum :: "string \<Rightarrow> string"
  md4_Sum :: "string \<Rightarrow> string"
  sha256_Sum256 :: "string \<Rightarrow> string"
  url_Parse :: "string \<Rightarrow> error + url"
  url_String :: "url \<Rightarrow> string"
  StatusText :: "int \<Rightarrow> string"
  path_Dir :: "string \<Rightarrow> string"
  client_Do :: "request \<Rightarrow> http_Response option \<times> string option"

text \<open>
  \<open>strings.ToLower\<close>: a string of ASCII bytes has its letters \<open>A\<close>-\<open>Z\<close> replaced by
  \<open>a\<close>-\<open>z\<close>; any other string is mapped rune by rune through the Unicode tables.
\<close>

definition isASCII :: "char \<Rightarrow> bool" where
  "isASCII c = (c < CHR 0x80)"

definition lowerASCII :: "char \<Rightarrow> char" where
  "lowerASCII c = (if isUpper c then char_of (of_char c + (32::nat)) else c)"

definition ToLower :: "env \<Rightarrow> string \<Rightarrow> string" where
  "ToLower E s = (if list_all isASCII s then map lowerASCII s else unicode_ToLower E s)"

text \<open>\<open>validMethod\<close> of net/http: a non-empty token.\<close>

definition validMethod :: "string \<Rightarrow> bool" where
  "validMethod m = (m \<noteq> [] \<and> list_all isTokenByte m)"

text \<open>\<open>strings.LastIndex(s, c)\<close> for a one-byte \<open>c\<close>: \<open>-1\<close> when \<open>c\<close> is not in \<open>s\<close>.\<close>

definition LastIndex :: "string \<Rightarrow> char \<Rightarrow> int" where
  "LastIndex s c =
     (if c \<in> set s then int (length s) - 1 - int (length (takeWhile (\<lambda>x. x \<noteq> c) (rev s)))
      else - 1)"

definition hasPort :: "string \<Rightarrow> bool" where
  "hasPort s = (LastIndex s (CHR '':'') > LastIndex s (CHR '']''))"

definition removeEmptyPort :: "string \<Rightarrow> string" where
  "removeEmptyPort host =
     (if hasPort host then (if host \<noteq> [] \<and> last host = CHR '':'' then butlast host else host)
      else host)"

text \<open>
  \<open>http.NewRequest(method, url, nil)\<close>: an empty method is GET; the method has to be a
  token; the URL is parsed and an empty port taken off its host; the protocol of the new
  request is HTTP/1.1 and its header block is empty.
\<close>

definition NewRequest :: "env \<Rightarrow> string \<Rightarrow> string \<Rightarrow> error + request" where
  "NewRequest E method urlStr =
     (let method' = (if method = [] then ''GET'' else method) in
      if \<not> validMethod method' then Inl (InvalidMethod method')
      else (case url_Parse E urlStr of
              Inl err \<Rightarrow> Inl err
            | Inr u \<Rightarrow>
                (let u' = u\<lparr>url.Host := removeEmptyPort (url.Host u)\<rparr> in
                 Inr \<lparr>Method = method', URL = u', Proto = ''HTTP/1.1'', Header = [],
                      Host = url.Host u', RequestURI = []\<rparr>)))"

section \<open>The wire codec of the store (external.go, 532-609)\<close>

definition dummyURL :: string where
  "dummyURL = ''http://dummy''"

text \<open>\<open>dummyReq\<close>: the error of \<open>http.NewRequest\<close> is dropped, and the pointer is nil then.\<close>

definition dummyReq :: "env \<Rightarrow> request option" where
  "dummyReq E = (case NewRequest E ''GET'' dummyURL of Inl err \<Rightarrow> None | Inr r \<Rightarrow> Some r)"

text \<open>
  \<open>readRequest\<close>: the request and the error it returns. The third field of the request
  line has to be there, and is only logged.
\<close>

definition readRequest :: "env \<Rightarrow> string \<Rightarrow> request option \<times> error option" where
  "readRequest E r =
     (let tp = textproto_NewReader r in
      case ReadLine tp of
        Inl err \<Rightarrow> (dummyReq E, Some err)
      | Inr (line, tp1) \<Rightarrow>
          (let f = SplitN line SP 3 in
           if length f < 2 then (dummyReq E, Some (MalformedRequestLine line))
           else if \<not> (length f > 2) then (dummyReq E, Some (MalformedRequestLine line))
           else (case ReadMIMEHeader tp1 of
                   (mimeHeader, Some err) \<Rightarrow> (dummyReq E, Some err)
                 | (mimeHeader, None) \<Rightarrow>
                     (case NewRequest E (f ! 0) (f ! 1) of
                        Inl err \<Rightarrow> (dummyReq E, Some err)
                      | Inr reqCopy \<Rightarrow>
                          (Some (reqCopy\<lparr>request.Header := mimeHeader\<rparr>), None)))))"

text \<open>\<open>readResponseHeaders\<close>: \<open>Header{}\<close> with the error, or the decoded record.\<close>

definition emptyHeader :: Header where
  "emptyHeader = \<lparr>Header = [], StatusCode = 0\<rparr>"

definition readResponseHeaders :: "string \<Rightarrow> Header \<times> error option" where
  "readResponseHeaders r =
     (let tp = textproto_NewReader r in
      case ReadLine tp of
        Inl err \<Rightarrow> (emptyHeader, Some err)
      | Inr (line, tp1) \<Rightarrow>
          (let f = SplitN line SP 3 in
           if length f < 2 then (emptyHeader, Some (MalformedResponse line))
           else (case Atoi (f ! 1) of
                   None \<Rightarrow> (emptyHeader, Some (MalformedStatusCode (f ! 1)))
                 | Some statusCode \<Rightarrow>
                     (case ReadMIMEHeader tp1 of
                        (mimeHeader, Some err) \<Rightarrow> (emptyHeader, Some err)
                      | (mimeHeader, None) \<Rightarrow>
                          (\<lparr>Header = mimeHeader, StatusCode = statusCode\<rparr>, None)))))"

text \<open>
  The bytes \<open>StoreRequest\<close> writes for a request (external.go, 224-231): a URL that is not
  absolute is replaced by the parse of \<open>"http://" + Host + URL.String()\<close>, whose error is
  dropped, so that the URL is nil when the parse fails and printing it panics; then the
  request line and the header block.
\<close>

definition requestBytes :: "env \<Rightarrow> request \<Rightarrow> error + string" where
  "requestBytes E h =
     (let u = (if \<not> IsAbs (URL h)
               then (case url_Parse E (''http://'' @ request.Host h @ url_String E (URL h)) of
                       Inl err \<Rightarrow> None
                     | Inr u' \<Rightarrow> Some u')
               else Some (URL h)) in
      case u of
        None \<Rightarrow> Inl NilDereference
      | Some u' \<Rightarrow>
          Inr (Method h @ [SP] @ url_String E u' @ [SP] @ Proto h @ [CR, LF]
               @ headersToWriter (request.Header h)))"

text \<open>The bytes \<open>storeHeader\<close> writes for a status code and a header block (472-474).\<close>

definition responseHeaderBytes :: "env \<Rightarrow> int \<Rightarrow> http_Header \<Rightarrow> string" where
  "responseHeaderBytes E code h =
     ''HTTP/1.1 '' @ Sprintf_d code @ [SP] @ StatusText E code @ [CR, LF] @ headersToWriter h"

text \<open>
  The conditions under which the codec is shown to be faithful. A header value is valid
  when each of its bytes is a valid header value byte (so it has no line break) and it
  neither starts nor ends with a space or a tab.
\<close>

definition validHeaderValue :: "string \<Rightarrow> bool" where
  "validHeaderValue v =
     (list_all validHeaderValueByte v \<and>
      (v = [] \<or> (\<not> isSpaceOrTab (hd v) \<and> \<not> isSpaceOrTab (last v))))"

text \<open>The next line, if there is one, is not a continuation line.\<close>

definition noContinuation :: "string list \<Rightarrow> bool" where
  "noContinuation ls = (case ls of [] \<Rightarrow> True | l # r \<Rightarrow> l = [] \<or> \<not> isSpaceOrTab (hd l))"

text \<open>The (key, value) pairs of a header block, entry by entry.\<close>

definition header_pairs :: "http_Header \<Rightarrow> (string \<times> string) list" where
  "header_pairs h = concat (map (\<lambda>(k, vs). map (Pair k) vs) h)"

text \<open>
  Every key is a valid field name and has at least one value, and every value is valid.
\<close>

definition validHeaderEntries :: "http_Header \<Rightarrow> bool" where
  "validHeaderEntries h =
     list_all (\<lambda>(k, vs). ValidHeaderFieldName k \<and> vs \<noteq> [] \<and> list_all validHeaderValue vs) h"

definition validPair :: "string \<times> string \<Rightarrow> bool" where
  "validPair p = (ValidHeaderFieldName (fst p) \<and> validHeaderValue (snd p))"

text \<open>The line of a pair, without its line break.\<close>

definition kv_line :: "string \<times> string \<Rightarrow> string" where
  "kv_line p = fst p @ CHR '':'' # SP # snd p"

text \<open>
  A header block with every key in canonical form: two blocks are equal under
  case-insensitive comparison of names when their canonical forms are the same map.
\<close>

definition canonicalHeader :: "http_Header \<Rightarrow> http_Header" where
  "canonicalHeader h = map (\<lambda>(k, vs). (canonicalize True k, vs)) h"

text \<open>
  A valid request: its method is a token; its URL is absolute, prints without a space or a
  line break, and is what the library parses from its printed form (with no empty port to
  strip); its protocol has no line break; its header entries are valid and no two keys
  have the same canonical form.
\<close>

definition validRequest :: "env \<Rightarrow> request \<Rightarrow> bool" where
  "validRequest E h =
     (validMethod (Method h) \<and> IsAbs (URL h) \<and>
      url_Parse E (url_String E (URL h)) = Inr (URL h) \<and>
      removeEmptyPort (url.Host (URL h)) = url.Host (URL h) \<and>
      SP \<notin> set (url_String E (URL h)) \<and> LF \<notin> set (url_String E (URL h)) \<and>
      LF \<notin> set (Proto h) \<and>
      validHeaderEntries (request.Header h) \<and>
      distinct (map (\<lambda>e. canonicalize True (fst e)) (request.Header h)))"

text \<open>A status code is a Go \<open>int\<close>.\<close>

definition validStatusCode :: "int \<Rightarrow> bool" where
  "validStatusCode code = (- (2 ^ 63) \<le> code \<and> code < 2 ^ 63)"

text \<open>
  A valid header block for a response: valid entries, one entry per key, every key in
  canonical form already (as the keys of a header block of net/http are).
\<close>

definition validHeaderBlock :: "http_Header \<Rightarrow> bool" where
  "validHeaderBlock h =
     (validHeaderEntries h \<and> distinct (map fst h) \<and>
      list_all (\<lambda>e. canonicalize True (fst e) = fst e) h)"

section \<open>The filesystem the store writes to\<close>

text \<open>
  The store reaches its files through the interface \<open>vfs.VFS\<close> of an external package. The
  model of a filesystem behind that interface is a finite map from paths to file contents,
  a table of injected failures (a call listed there fails with the given error, whatever
  the files are), and the log of the calls made so far. Directories are not part of the
  state: \<open>MkdirAll\<close> can fail, and changes no file. Paths are compared as they are written.
\<close>

datatype fs_call =
    Stat_call string
  | Open_call string
  | OpenFile_call string
  | Write_call string
  | Remove_call string
  | MkdirAll_call string
  | Walk_call string

record vfs =
  files :: "(string \<times> string) list"
  fault :: "fs_call \<Rightarrow> io_error option"
  calls :: "fs_call list"

definition called :: "fs_call \<Rightarrow> vfs \<Rightarrow> vfs" where
  "called c fs = fs\<lparr>calls := calls fs @ [c]\<rparr>"

text \<open>\<open>fs.Stat(path)\<close>: the size of the file, which is all the store reads of it.\<close>

definition Stat :: "vfs \<Rightarrow> string \<Rightarrow> (io_error + nat) \<times> vfs" where
  "Stat fs path =
     ((case fault fs (Stat_call path) of
         Some e \<Rightarrow> Inl e
       | None \<Rightarrow> (case map_of (files fs) path of None \<Rightarrow> Inl ENOENT | Some c \<Rightarrow> Inr (length c))),
      called (Stat_call path) fs)"

text \<open>\<open>fs.Open(path)\<close>: a handle for reading, modelled by the bytes it will deliver.\<close>

definition Open :: "vfs \<Rightarrow> string \<Rightarrow> (io_error + string) \<times> vfs" where
  "Open fs path =
     ((case fault fs (Open_call path) of
         Some e \<Rightarrow> Inl e
       | None \<Rightarrow> (case map_of (files fs) path of None \<Rightarrow> Inl ENOENT | Some c \<Rightarrow> Inr c)),
      called (Open_call path) fs)"

text \<open>\<open>fs.OpenFile(path, O_CREATE|O_TRUNC|O_WRONLY, 0600)\<close>: the file exists and is empty.\<close>

definition OpenFile :: "vfs \<Rightarrow> string \<Rightarrow> (io_error + unit) \<times> vfs" where
  "OpenFile fs path =
     (case fault fs (OpenFile_call path) of
        Some e \<Rightarrow> (Inl e, called (OpenFile_call path) fs)
      | None \<Rightarrow>
          (Inr (), called (OpenFile_call path) (fs\<lparr>files := AList.update path [] (files fs)\<rparr>)))"

text \<open>Writing bytes to a file opened for writing: they are appended, or the write fails.\<close>

definition Write :: "vfs \<Rightarrow> string \<Rightarrow> string \<Rightarrow> (io_error + unit) \<times> vfs" where
  "Write fs path b =
     (case fault fs (Write_call path) of
        Some e \<Rightarrow> (Inl e, called (Write_call path) fs)
      | None \<Rightarrow>
          (Inr (), called (Write_call path)
             (fs\<lparr>files := AList.update path
                     ((case map_of (files fs) path of None \<Rightarrow> [] | Some c \<Rightarrow> c) @ b)
                     (files fs)\<rparr>)))"

text \<open>\<open>fs.Remove(path)\<close>.\<close>

definition Remove :: "vfs \<Rightarrow> string \<Rightarrow> (io_error + unit) \<times> vfs" where
  "Remove fs path =
     (case fault fs (Remove_call path) of
        Some e \<Rightarrow> (Inl e, called (Remove_call path) fs)
      | None \<Rightarrow>
          (case map_of (files fs) path of
             None \<Rightarrow> (Inl ENOENT, called (Remove_call path) fs)
           | Some c \<Rightarrow>
               (Inr (), called (Remove_call path) (fs\<lparr>files := AList.delete path (files fs)\<rparr>))))"

text \<open>\<open>vfs.MkdirAll(fs, dir, 0700)\<close>.\<close>

definition MkdirAll :: "vfs \<Rightarrow> string \<Rightarrow> (io_error + unit) \<times> vfs" where
  "MkdirAll fs dir =
     ((case fault fs (MkdirAll_call dir) of Some e \<Rightarrow> Inl e | None \<Rightarrow> Inr ()),
      called (MkdirAll_call dir) fs)"

text \<open>
  \<open>io.Copy(f, r)\<close> into the file at \<open>path\<close>, from a reader that delivers \<open>b\<close> and then ends or
  fails with \<open>rerr\<close>: the bytes read are written (in one call here), a failed write is
  returned, then the error of the reader.
\<close>

definition io_Copy :: "vfs \<Rightarrow> string \<Rightarrow> string \<times> string option \<Rightarrow> error option \<times> vfs" where
  "io_Copy fs path r =
     (case r of (b, rerr) \<Rightarrow>
        (case (if b = [] then (Inr (), fs) else Write fs path b) of
           (Inl e, fs1) \<Rightarrow> (Some (IOError e), fs1)
         | (Inr u, fs1) \<Rightarrow>
             (case rerr of Some msg \<Rightarrow> (Some (ReadError msg), fs1) | None \<Rightarrow> (None, fs1))))"

text \<open>
  \<open>vfs.Walk(fs, root, fn)\<close> calls \<open>fn\<close> on the root and on every path below it, with the
  error of looking the path up, and stops when \<open>fn\<close> returns an error. In the model the
  paths below the root are the files whose path starts with it, in sorted order, and the
  lookup of a path fails when its \<open>Walk_call\<close> is listed as a failure.
\<close>

definition walkVisits :: "vfs \<Rightarrow> string \<Rightarrow> (string \<times> io_error option) list" where
  "walkVisits fs root =
     map (\<lambda>p. (p, fault fs (Walk_call p)))
         (root # sort (filter (\<lambda>p. prefix root p \<and> p \<noteq> root) (map fst (files fs))))"

text \<open>
  Two conditions on the files, as the store sees them through \<open>Stat\<close>: the file at a path
  exists with a size that is not zero (and \<open>Stat\<close> on it does not fail); the file is missing
  or has size zero.
\<close>

definition existsNonEmpty :: "vfs \<Rightarrow> string \<Rightarrow> bool" where
  "existsNonEmpty f path =
     (fault f (Stat_call path) = None \<and>
      (case map_of (files f) path of None \<Rightarrow> False | Some c \<Rightarrow> c \<noteq> []))"

definition missingOrEmpty :: "vfs \<Rightarrow> string \<Rightarrow> bool" where
  "missingOrEmpty f path = (case map_of (files f) path of None \<Rightarrow> True | Some c \<Rightarrow> c = [])"

text \<open>A filesystem none of whose calls is made to fail.\<close>

definition healthy :: "vfs \<Rightarrow> bool" where
  "healthy f = (\<forall>c. fault f c = None)"

text \<open>
  Two outcomes of a call that returns an error and a filesystem. In \<open>refused f e cs r\<close> the
  call failed with \<open>e\<close>, no file of \<open>f\<close> has changed and the calls it made are exactly
  \<open>cs\<close>. In \<open>stored f name b r\<close> the call succeeded, the file at \<open>name\<close> holds \<open>b\<close>, there is no
  marker beside it and every other file is as it was in \<open>f\<close>.
\<close>

definition refused :: "vfs \<Rightarrow> error \<Rightarrow> fs_call list \<Rightarrow> error option \<times> vfs \<Rightarrow> bool" where
  "refused f e cs r =
     (fst r = Some e \<and> files (snd r) = files f \<and> fault (snd r) = fault f \<and>
      calls (snd r) = calls f @ cs)"

definition stored :: "vfs \<Rightarrow> string \<Rightarrow> string \<Rightarrow> error option \<times> vfs \<Rightarrow> bool" where
  "stored f name b r =
     (fst r = None \<and> map_of (files (snd r)) name = Some b \<and>
      map_of (files (snd r)) (name @ ''.private'') = None \<and>
      (\<forall>p. p \<noteq> name \<and> p \<noteq> name @ ''.private'' \<longrightarrow>
           map_of (files (snd r)) p = map_of (files f) p))"



text \<open>
  In \<open>deleted f name r\<close> the call returned nil after removing the file at \<open>name\<close> and then
  trying to remove its marker, it made these two calls and no other, the marker is gone
  when its removal was not made to fail and is as it was otherwise, and every other file is
  as it was in \<open>f\<close>.
\<close>

definition deleted :: "vfs \<Rightarrow> string \<Rightarrow> error option \<times> vfs \<Rightarrow> bool" where
  "deleted f name r =
     (fst r = None \<and>
      calls (snd r) = calls f @ [Remove_call name, Remove_call (name @ ''.private'')] \<and>
      map_of (files (snd r)) name = None \<and>
      map_of (files (snd r)) (name @ ''.private'') =
        (if fault f (Remove_call (name @ ''.private'')) = None then None
         else map_of (files f) (name @ ''.private'')) \<and>
      (\<forall>p. p \<noteq> name \<and> p \<noteq> name @ ''.private'' \<longrightarrow>
           map_of (files (snd r)) p = map_of (files f) p))"

section \<open>The response entity (response.go)\<close>

text \<open>
  The implementations of \<open>ReadSeekCloser\<close> a \<open>Response\<close> is built over: the bytes of
  \<open>ByteReadSeekCloser\<close>, the network body wrapped by \<open>IoReaderToReadSeekCloser\<close>, and the
  open file that \<open>RetrieveResponse\<close> hands over.
\<close>

datatype ReadSeekCloser =
    ByteReadSeekCloser string
  | IoReaderToReadSeekCloser reader
  | RFile string

record Response =
  ReadSeekCloser :: ReadSeekCloser
  header :: http_Header
  statusCode :: int
  stale :: bool

definition NewResponse :: "int \<Rightarrow> ReadSeekCloser \<Rightarrow> http_Header \<Rightarrow> Response" where
  "NewResponse code b hdrs =
     \<lparr>ReadSeekCloser = b, header = hdrs, statusCode = code, stale = False\<rparr>"

definition NewResponseFromHttp :: "http_Response \<Rightarrow> reader \<Rightarrow> Response" where
  "NewResponseFromHttp resp b =
     \<lparr>ReadSeekCloser = IoReaderToReadSeekCloser b, header = http_Response.Header resp,
      statusCode = http_Response.StatusCode resp, stale = False\<rparr>"

definition Status :: "Response \<Rightarrow> int" where
  "Status r = statusCode r"


text \<open>
  \<open>IoReaderToReadSeekCloser.Close\<close> (response.go, 44-46) returns \<open>iosc.Close()\<close>, which is the
  method itself. \<open>None\<close> is the call that does not return.
\<close>

partial_function (option) IoReaderToReadSeekCloser_Close :: "reader \<Rightarrow> (error option \<times> reader) option"
  where "IoReaderToReadSeekCloser_Close iosc = IoReaderToReadSeekCloser_Close iosc"

text \<open>
  \<open>Close\<close> on a \<open>Response\<close> is the \<open>Close\<close> of the \<open>ReadSeekCloser\<close> it embeds:
  \<open>ByteReadSeekCloser.Close\<close> returns nil, and closing a file ends its use.
\<close>

definition Response_Close :: "Response \<Rightarrow> (error option \<times> Response) option" where
  "Response_Close r =
     (case ReadSeekCloser r of
        ByteReadSeekCloser b \<Rightarrow> Some (None, r)
      | IoReaderToReadSeekCloser rd \<Rightarrow>
          (case IoReaderToReadSeekCloser_Close rd of
             None \<Rightarrow> None
           | Some (e, rd') \<Rightarrow> Some (e, r\<lparr>ReadSeekCloser := IoReaderToReadSeekCloser rd'\<rparr>))
      | RFile f \<Rightarrow> Some (None, r))"

section \<open>The store (external.go)\<close>

definition requestPrefix :: string where "requestPrefix = ''request/''"
definition headerPrefix :: string where "headerPrefix = ''header/''"
definition bodyPrefix :: string where "bodyPrefix = ''body/''"
definition formatPrefix :: string where "formatPrefix = ''v1/''"

text \<open>
  The struct \<open>store\<close>: the filesystem and the name of the digest. (Its \<open>stale\<close> map is never
  read, and its \<open>client\<close> is the \<open>client_Do\<close> of \<open>env\<close>.) The methods change the filesystem
  only, so each returns its result and the filesystem after the call.
\<close>

record store =
  fs :: vfs
  hash :: string

definition hex_digit :: "nat \<Rightarrow> char" where
  "hex_digit n = (if n < 10 then char_of (48 + n) else char_of (87 + n))"

text \<open>\<open>fmt.Sprintf("%x", b)\<close> for a byte slice: two lower-case hex digits per byte.\<close>

definition Sprintf_x :: "string \<Rightarrow> string" where
  "Sprintf_x b =
     concat (map (\<lambda>c. [hex_digit (of_char c div 16), hex_digit (of_char c mod 16)]) b)"

definition HashKey :: "env \<Rightarrow> store \<Rightarrow> string \<Rightarrow> string" where
  "HashKey E s key =
     (if ToLower E (hash s) = ''sha224'' then Sprintf_x (sha256_Sum224 E key)
      else if ToLower E (hash s) = ''sha384'' then Sprintf_x (sha512_Sum384 E key)
      else if ToLower E (hash s) = ''sha512'' then Sprintf_x (sha512_Sum512 E key)
      else if ToLower E (hash s) = ''sha1'' then Sprintf_x (sha1_Sum E key)
      else if ToLower E (hash s) = ''md5'' then Sprintf_x (md5_Sum E key)
      else if ToLower E (hash s) = ''md4'' then Sprintf_x (md4_Sum E key)
      else if ToLower E (hash s) = ''plain'' then key
      else Sprintf_x (sha256_Sum256 E key))"

definition vfsWrite :: "env \<Rightarrow> vfs \<Rightarrow> string \<Rightarrow> string \<times> string option \<Rightarrow> error option \<times> vfs" where
  "vfsWrite E fs0 path r =
     (case MkdirAll fs0 (path_Dir E path) of
        (Inl err, fs1) \<Rightarrow> (Some (IOError err), fs1)
      | (Inr u, fs1) \<Rightarrow>
          (case OpenFile fs1 path of
             (Inl err, fs2) \<Rightarrow> (Some (IOError err), fs2)
           | (Inr f, fs2) \<Rightarrow> io_Copy fs2 path r))"

definition vfsCreatePrivateDummy :: "env \<Rightarrow> vfs \<Rightarrow> string \<Rightarrow> error option \<times> vfs" where
  "vfsCreatePrivateDummy E fs0 path =
     (case MkdirAll fs0 (path_Dir E path) of
        (Inl err, fs1) \<Rightarrow> (Some (IOError err), fs1)
      | (Inr u, fs1) \<Rightarrow>
          (case OpenFile fs1 path of
             (Inl err, fs2) \<Rightarrow> (Some (IOError err), fs2)
           | (Inr f, fs2) \<Rightarrow>
               (case Write fs2 path ''dummy'' of
                  (Inl err, fs3) \<Rightarrow> (Some (IOError err), fs3)
                | (Inr n, fs3) \<Rightarrow> (None, fs3))))"

definition vfsDeletePrivateDummy :: "env \<Rightarrow> vfs \<Rightarrow> string \<Rightarrow> error option \<times> vfs" where
  "vfsDeletePrivateDummy E fs0 path =
     (case MkdirAll fs0 (path_Dir E path) of
        (Inl err, fs1) \<Rightarrow> (Some (IOError err), fs1)
      | (Inr u, fs1) \<Rightarrow>
          (case Remove fs1 path of
             (Inl err, fs2) \<Rightarrow>
               (if IsNotExist (IOError err) then (Some ErrNotFoundInStore, fs2)
                else (Some (IOError err), fs2))
           | (Inr u', fs2) \<Rightarrow> (None, fs2)))"

text \<open>
  The block \<open>if !override { ... }\<close> that opens \<open>StoreRequest\<close> (213-222), \<open>storeBody\<close>
  (440-449) and \<open>storeHeader\<close> (460-469), the same code on the path \<open>name\<close> of each:
  \<open>err == nil && stat.Size() > 0\<close> on the marker, then on the content.
\<close>

definition sizePositive :: "io_error + nat \<Rightarrow> bool" where
  "sizePositive st = (case st of Inl err \<Rightarrow> False | Inr n \<Rightarrow> 0 < n)"

definition foundInStore :: "vfs \<Rightarrow> string \<Rightarrow> error option \<times> vfs" where
  "foundInStore fs0 name =
     (case Stat fs0 (name @ ''.private'') of
        (st, fs1) \<Rightarrow>
          if sizePositive st then (Some ErrFoundInStorePrivate, fs1)
          else (case Stat fs1 name of
                  (st', fs2) \<Rightarrow>
                    if sizePositive st' then (Some ErrFoundInStore, fs2) else (None, fs2)))"

definition StoreRequest :: "env \<Rightarrow> store \<Rightarrow> request \<Rightarrow> string \<Rightarrow> bool \<Rightarrow> error option \<times> vfs" where
  "StoreRequest E s h key override =
     (let name = requestPrefix @ formatPrefix @ HashKey E s key in
      case (if \<not> override then foundInStore (fs s) name else (None, fs s)) of
        (Some err, fs1) \<Rightarrow> (Some err, fs1)
      | (None, fs1) \<Rightarrow>
          (case requestBytes E h of
             Inl err \<Rightarrow> (Some err, fs1)
           | Inr hb \<Rightarrow>
               (case vfsCreatePrivateDummy E fs1 (name @ ''.private'') of
                  (ignored, fs2) \<Rightarrow>
                    (case vfsWrite E fs2 name (hb, None) of
                       (Some err, fs3) \<Rightarrow> (Some err, fs3)
                     | (None, fs3) \<Rightarrow>
                         (case vfsDeletePrivateDummy E fs3 (name @ ''.private'') of
                            (ignored', fs4) \<Rightarrow> (None, fs4))))))"

definition privateFileExists :: "vfs \<Rightarrow> string \<Rightarrow> error option \<times> vfs" where
  "privateFileExists fs0 file =
     (case Stat fs0 (file @ ''.private'') of
        (st, fs1) \<Rightarrow> if sizePositive st then (Some ErrFoundInStorePrivate, fs1) else (None, fs1))"

definition RetrieveRequestByFileName :: "env \<Rightarrow> store \<Rightarrow> string \<Rightarrow> (error + request) \<times> vfs" where
  "RetrieveRequestByFileName E s filename =
     (case privateFileExists (fs s) filename of
        (Some err, fs1) \<Rightarrow> (Inl err, fs1)
      | (None, fs1) \<Rightarrow>
          (case Open fs1 filename of
             (Inl err, fs2) \<Rightarrow>
               (if IsNotExist (IOError err) then (Inl ErrNotFoundInStore, fs2)
                else (Inl (IOError err), fs2))
           | (Inr f, fs2) \<Rightarrow>
               (case Stat fs2 filename of
                  (Inl err, fs3) \<Rightarrow> (Inl (IOError err), fs3)
                | (Inr sz, fs3) \<Rightarrow>
                    if sz = 0 then (Inl ErrFoundWithZeroInStore, fs3)
                    else (case readRequest E f of
                            (reqCopy, Some err) \<Rightarrow>
                              (if IsNotExist err then (Inl ErrNotFoundInStore, fs3)
                               else (Inl err, fs3))
                          | (None, None) \<Rightarrow> (Inl NilDereference, fs3)
                          | (Some reqCopy, None) \<Rightarrow> (Inr reqCopy, fs3)))))"

definition RetrieveRequestByHash :: "env \<Rightarrow> store \<Rightarrow> string \<Rightarrow> (error + request) \<times> vfs" where
  "RetrieveRequestByHash E s h = RetrieveRequestByFileName E s (requestPrefix @ formatPrefix @ h)"

definition RetrieveRequest :: "env \<Rightarrow> store \<Rightarrow> string \<Rightarrow> (error + request) \<times> vfs" where
  "RetrieveRequest E s key = RetrieveRequestByHash E s (HashKey E s key)"

definition DelByFilename :: "vfs \<Rightarrow> string \<Rightarrow> error option \<times> vfs" where
  "DelByFilename fs0 filename =
     (case Remove fs0 filename of
        (Inl err, fs1) \<Rightarrow>
          (if IsNotExist (IOError err) then (Some ErrNotFoundInStore, fs1)
           else (Some (IOError err), fs1))
      | (Inr u, fs1) \<Rightarrow> (None, fs1))"

definition DelRequest :: "env \<Rightarrow> store \<Rightarrow> string \<Rightarrow> error option \<times> vfs" where
  "DelRequest E s key =
     (case DelByFilename (fs s) (requestPrefix @ formatPrefix @ HashKey E s key) of
        (Some err, fs1) \<Rightarrow> (Some err, fs1)
      | (None, fs1) \<Rightarrow>
          (case DelByFilename fs1 (requestPrefix @ formatPrefix @ HashKey E s key @ ''.private'') of
             (ignored, fs2) \<Rightarrow> (None, fs2)))"

definition DelResponseBody :: "env \<Rightarrow> store \<Rightarrow> string \<Rightarrow> error option \<times> vfs" where
  "DelResponseBody E s key =
     (case DelByFilename (fs s) (bodyPrefix @ formatPrefix @ HashKey E s key) of
        (Some err, fs1) \<Rightarrow> (Some err, fs1)
      | (None, fs1) \<Rightarrow>
          (case DelByFilename fs1 (bodyPrefix @ formatPrefix @ HashKey E s key @ ''.private'') of
             (ignored, fs2) \<Rightarrow> (None, fs2)))"

definition DelResponseHeader :: "env \<Rightarrow> store \<Rightarrow> string \<Rightarrow> error option \<times> vfs" where
  "DelResponseHeader E s key =
     (case DelByFilename (fs s) (headerPrefix @ formatPrefix @ HashKey E s key) of
        (Some err, fs1) \<Rightarrow> (Some err, fs1)
      | (None, fs1) \<Rightarrow>
          (case DelByFilename fs1 (headerPrefix @ formatPrefix @ HashKey E s key @ ''.private'') of
             (ignored, fs2) \<Rightarrow> (None, fs2)))"

definition DelResponse :: "env \<Rightarrow> store \<Rightarrow> string \<Rightarrow> error option \<times> vfs" where
  "DelResponse E s key =
     (case DelResponseBody E s key of
        (Some err, fs1) \<Rightarrow> (Some err, fs1)
      | (None, fs1) \<Rightarrow>
          (case DelResponseHeader E (s\<lparr>fs := fs1\<rparr>) key of
             (Some err, fs2) \<Rightarrow> (Some err, fs2)
           | (None, fs2) \<Rightarrow> (None, fs2)))"

text \<open>\<open>storeBody(r, key, override)\<close>, for a reader \<open>r\<close> given by what it delivers.\<close>

definition storeBody :: "env \<Rightarrow> store \<Rightarrow> string \<times> string option \<Rightarrow> string \<Rightarrow> bool \<Rightarrow> error option \<times> vfs" where
  "storeBody E s r key override =
     (let name = bodyPrefix @ formatPrefix @ HashKey E s key in
      case (if \<not> override then foundInStore (fs s) name else (None, fs s)) of
        (Some err, fs1) \<Rightarrow> (Some err, fs1)
      | (None, fs1) \<Rightarrow>
          (case vfsCreatePrivateDummy E fs1 (name @ ''.private'') of
             (ignored, fs2) \<Rightarrow>
               (case vfsWrite E fs2 name r of
                  (Some err, fs3) \<Rightarrow> (Some err, fs3)
                | (None, fs3) \<Rightarrow>
                    (case vfsDeletePrivateDummy E fs3 (name @ ''.private'') of
                       (ignored', fs4) \<Rightarrow> (None, fs4)))))"

definition storeHeader :: "env \<Rightarrow> store \<Rightarrow> int \<Rightarrow> http_Header \<Rightarrow> string \<Rightarrow> bool \<Rightarrow> error option \<times> vfs" where
  "storeHeader E s code h key override =
     (let name = headerPrefix @ formatPrefix @ HashKey E s key in
      case (if \<not> override then foundInStore (fs s) name else (None, fs s)) of
        (Some err, fs1) \<Rightarrow> (Some err, fs1)
      | (None, fs1) \<Rightarrow>
          (case vfsCreatePrivateDummy E fs1 (name @ ''.private'') of
             (ignored, fs2) \<Rightarrow>
               (case vfsWrite E fs2 name (responseHeaderBytes E code h, None) of
                  (Some err, fs3) \<Rightarrow> (Some err, fs3)
                | (None, fs3) \<Rightarrow>
                    (case vfsDeletePrivateDummy E fs3 (name @ ''.private'') of
                       (ignored', fs4) \<Rightarrow> (None, fs4)))))"


definition StoreResponseHeader :: "env \<Rightarrow> store \<Rightarrow> Response \<Rightarrow> string \<Rightarrow> bool \<Rightarrow> error option \<times> vfs" where
  "StoreResponseHeader E s res key override =
     (case storeHeader E s (Status res) (header res) key override of
        (Some err, fs1) \<Rightarrow> (Some err, fs1)
      | (None, fs1) \<Rightarrow> (None, fs1))"

definition RetrieveResponseHeader :: "env \<Rightarrow> store \<Rightarrow> string \<Rightarrow> (error + Header) \<times> vfs" where
  "RetrieveResponseHeader E s key =
     (case privateFileExists (fs s) (headerPrefix @ formatPrefix @ HashKey E s key) of
        (Some err, fs1) \<Rightarrow> (Inl err, fs1)
      | (None, fs1) \<Rightarrow>
          (case Open fs1 (headerPrefix @ formatPrefix @ HashKey E s key) of
             (Inl err, fs2) \<Rightarrow>
               (if IsNotExist (IOError err) then (Inl ErrNotFoundInStore, fs2)
                else (Inl (IOError err), fs2))
           | (Inr f, fs2) \<Rightarrow>
               (case readResponseHeaders f of
                  (h, Some err) \<Rightarrow> (Inl err, fs2)
                | (h, None) \<Rightarrow> (Inr h, fs2))))"

definition RetrieveResponse :: "env \<Rightarrow> store \<Rightarrow> string \<Rightarrow> (error + Response) \<times> vfs" where
  "RetrieveResponse E s key =
     (case privateFileExists (fs s) (bodyPrefix @ formatPrefix @ HashKey E s key) of
        (Some err, fs1) \<Rightarrow> (Inl err, fs1)
      | (None, fs1) \<Rightarrow>
          (case Open fs1 (bodyPrefix @ formatPrefix @ HashKey E s key) of
             (Inl err, fs2) \<Rightarrow>
               (if IsNotExist (IOError err) then (Inl ErrNotFoundInStore, fs2)
                else (Inl (IOError err), fs2))
           | (Inr f, fs2) \<Rightarrow>
               (case Stat fs2 (bodyPrefix @ formatPrefix @ HashKey E s key) of
                  (Inl err, fs3) \<Rightarrow> (Inl (IOError err), fs3)
                | (Inr sz, fs3) \<Rightarrow>
                    if sz = 0 then (Inl ErrFoundWithZeroInStore, fs3)
                    else (case RetrieveResponseHeader E (s\<lparr>fs := fs3\<rparr>) key of
                            (Inl err, fs4) \<Rightarrow>
                              (if IsNotExist err then (Inl ErrNotFoundInStore, fs4)
                               else (Inl err, fs4))
                          | (Inr h, fs4) \<Rightarrow>
                              (Inr (NewResponse (Header.StatusCode h) (RFile f) (Header.Header h)),
                               fs4)))))"

text \<open>
  The function \<open>RetrieveAllRequests\<close> hands to \<open>vfs.Walk\<close> (195-207), run over the visits of
  the walk: a visit with an error returns it, which ends the walk; any other visit
  retrieves the path, appends the request when there is no error, and returns nil.
\<close>

fun walkRequests :: "env \<Rightarrow> store \<Rightarrow> (string \<times> io_error option) list \<Rightarrow> request list \<Rightarrow> vfs \<Rightarrow> request list \<times> vfs" where
  "walkRequests E s [] requests fs0 = (requests, fs0)"
| "walkRequests E s ((path, Some err) # visits) requests fs0 = (requests, fs0)"
| "walkRequests E s ((path, None) # visits) requests fs0 =
     (case RetrieveRequestByFileName E (s\<lparr>fs := fs0\<rparr>) path of
        (Inr request, fs1) \<Rightarrow> walkRequests E s visits (requests @ [request]) fs1
      | (Inl err, fs1) \<Rightarrow> walkRequests E s visits requests fs1)"

definition RetrieveAllRequests :: "env \<Rightarrow> store \<Rightarrow> request list \<times> vfs" where
  "RetrieveAllRequests E s =
     walkRequests E s (walkVisits (fs s) (requestPrefix @ formatPrefix)) [] (fs s)"



text \<open>The request a path decodes to, if retrieving it by file name succeeds.\<close>

definition decodes :: "env \<Rightarrow> store \<Rightarrow> string \<Rightarrow> request option" where
  "decodes E s path =
     (case fst (RetrieveRequestByFileName E s path) of Inl err \<Rightarrow> None | Inr r \<Rightarrow> Some r)"

section \<open>An environment and a store for the closed examples\<close>

text \<open>
  The closed examples below run the store in this environment: the digests are stand-ins
  (the key behind a tag byte), \<open>url.Parse\<close> and \<open>URL.String\<close> read and print URLs of the shape
  \<open>http://host/path\<close>, \<open>path.Dir\<close> cuts a path at its last slash, and the client answers
  \<open>/moved\<close> with a response whose body is closed and an error that carries \<open>REDIRECT!!!\<close>,
  \<open>/found\<close> with such an error and a response whose body can still be read,
  \<open>/REDIRECT!!!\<close> and \<open>/down\<close> with an error alone, which names the URL for the first, and
  any other path with a response.
\<close>

definition example_env :: env where
  "example_env =
     \<lparr>unicode_ToLower = (\<lambda>s. s),
      sha256_Sum224 = (\<lambda>k. CHR 0x01 # k),
      sha512_Sum384 = (\<lambda>k. CHR 0x02 # k),
      sha512_Sum512 = (\<lambda>k. CHR 0x03 # k),
      sha1_Sum = (\<lambda>k. CHR 0x04 # k),
      md5_Sum = (\<lambda>k. CHR 0x05 # k),
      md4_Sum = (\<lambda>k. CHR 0x06 # k),
      sha256_Sum256 = (\<lambda>k. CHR 0x07 # k),
      url_Parse =
        (\<lambda>s. if prefix ''http://'' s
             then Inr \<lparr>Scheme = ''http'', Opaque = [], User = None,
                       Host = takeWhile (\<lambda>c. c \<noteq> CHR ''/'') (drop 7 s),
                       Path = dropWhile (\<lambda>c. c \<noteq> CHR ''/'') (drop 7 s),
                       RawQuery = [], Fragment = []\<rparr>
             else Inl (URLError s)),
      url_String = (\<lambda>u. Scheme u @ ''://'' @ url.Host u @ Path u),
      StatusText =
        (\<lambda>c. if c = 200 then ''OK'' else if c = 302 then ''Found''
             else if c = 404 then ''Not Found'' else []),
      path_Dir = (\<lambda>p. rev (tl (dropWhile (\<lambda>c. c \<noteq> CHR ''/'') (rev p)))),
      client_Do =
        (\<lambda>r. if Path (URL r) = ''/moved''
             then (Some \<lparr>http_Response.StatusCode = 302,
                         http_Response.Header = [(''Location'', [''/a''])],
                         Body = \<lparr>data = [], failure = Some ''read on closed response body'',
                                  closed = True\<rparr>\<rparr>,
                   Some ''Get /moved: REDIRECT!!!'')
             else if Path (URL r) = ''/found''
             then (Some \<lparr>http_Response.StatusCode = 302,
                         http_Response.Header = [(''Location'', [''/a''])],
                         Body = \<lparr>data = ''see /a'', failure = None, closed = False\<rparr>\<rparr>,
                   Some ''Get /found: REDIRECT!!!'')
             else if Path (URL r) = ''/REDIRECT!!!''
             then (None, Some ''Get http://example.com/REDIRECT!!!: connection refused'')
             else if Path (URL r) = ''/down'' then (None, Some ''connection refused'')
             else (Some \<lparr>http_Response.StatusCode = 200,
                         http_Response.Header = [(''Content-Type'', [''text/plain''])],
                         Body = \<lparr>data = ''hello'', failure = None, closed = False\<rparr>\<rparr>,
                   None))\<rparr>"

definition example_url :: "string \<Rightarrow> url" where
  "example_url p =
     \<lparr>Scheme = ''http'', Opaque = [], User = None, Host = ''example.com'', Path = p,
      RawQuery = [], Fragment = []\<rparr>"

definition example_request :: "string \<Rightarrow> string \<Rightarrow> request" where
  "example_request p proto =
     \<lparr>Method = ''GET'', URL = example_url p, Proto = proto,
      Header = [(''Host'', [''example.com''])], Host = ''example.com'', RequestURI = []\<rparr>"

text \<open>A filesystem with the given files, no injected failure and an empty log.\<close>

definition fs_of :: "(string \<times> string) list \<Rightarrow> vfs" where
  "fs_of fl = \<lparr>files = fl, fault = (\<lambda>c. None), calls = []\<rparr>"

definition store_of :: "string \<Rightarrow> (string \<times> string) list \<Rightarrow> store" where
  "store_of h fl = \<lparr>fs = fs_of fl, hash = h\<rparr>"

text \<open>
  A store in plain mode in which the request, the response header and the response body
  of key \<open>k\<close> are committed and marked at once, and the request of key \<open>j\<close> has an empty
  marker.
\<close>

definition marked_store :: store where
  "marked_store =
     store_of ''plain''
       [(''request/v1/k'', ''GET http://example.com/a HTTP/1.1'' @ [CR, LF, CR, LF]),
        (''request/v1/k.private'', ''dummy''),
        (''header/v1/k'', ''HTTP/1.1 200 OK'' @ [CR, LF, CR, LF]),
        (''header/v1/k.private'', ''dummy''),
        (''body/v1/k'', ''hello''),
        (''body/v1/k.private'', ''dummy''),
        (''request/v1/j'', ''GET http://example.com/a HTTP/1.1'' @ [CR, LF, CR, LF]),
        (''request/v1/j.private'', [])]"

text \<open>The same records committed, with no marker.\<close>

definition committed_store :: store where
  "committed_store =
     store_of ''plain''
       [(''request/v1/k'', ''GET http://example.com/a HTTP/1.1'' @ [CR, LF, CR, LF]),
        (''header/v1/k'', ''HTTP/1.1 200 OK'' @ [CR, LF, CR, LF]),
        (''body/v1/k'', ''hello'')]"

text \<open>
  The files of \<open>marked_store\<close> on a filesystem that refuses to remove the request of \<open>k\<close>
  and the marker of the body of \<open>k\<close>.
\<close>

definition faulty_store :: store where
  "faulty_store =
     \<lparr>fs = \<lparr>files = files (fs marked_store),
              fault = (\<lambda>c. if c = Remove_call ''request/v1/k'' then Some (EIO ''permission denied'')
                           else if c = Remove_call ''body/v1/k.private'' then Some (EIO ''permission denied'')
                           else None),
              calls = []\<rparr>,
      hash = ''plain''\<rparr>"

text \<open>
  A store in plain mode whose three records of key \<open>k\<close> exist with zero length, with no
  marker.
\<close>

definition empty_records_store :: store where
  "empty_records_store =
     store_of ''plain'' [(''request/v1/k'', []), (''header/v1/k'', []), (''body/v1/k'', [])]"

text \<open>
  Three requests stored under the keys \<open>a\<close>, \<open>b\<close> and \<open>c\<close> by \<open>StoreRequest\<close> in an empty
  store with the default digest, and the store in which the record of \<open>b\<close> has then been
  overwritten by bytes that are no request.
\<close>

definition three_requests :: vfs where
  "three_requests =
     snd (StoreRequest example_env
            \<lparr>fs = snd (StoreRequest example_env
                         \<lparr>fs = snd (StoreRequest example_env (store_of [] [])
                                      (example_request ''/a'' ''HTTP/1.1'') ''a'' False),
                          hash = []\<rparr>
                         (example_request ''/b'' ''HTTP/1.1'') ''b'' False),
             hash = []\<rparr>
            (example_request ''/c'' ''HTTP/1.1'') ''c'' False)"

definition corrupted_store :: store where
  "corrupted_store =
     \<lparr>fs = three_requests\<lparr>files := AList.update ''request/v1/0762'' ''garbage'' (files three_requests)\<rparr>,
      hash = []\<rparr>"

text \<open>A header block of a response.\<close>

definition example_header :: http_Header where
  "example_header = [(''X-Cache'', [''MISS'', ''from ms-store'']), (''Content-Type'', [''text/plain''])]"

section \<open>Properties of the response entity\<close>

lemma IoReaderToReadSeekCloser_Close_None: "IoReaderToReadSeekCloser_Close iosc = None"
proof (cases "IoReaderToReadSeekCloser_Close iosc")
  case None
  then show ?thesis .
next
  case (Some y)
  have False
    by (rule IoReaderToReadSeekCloser_Close.raw_induct[where P = "\<lambda>x y. False", OF _ Some]) blast
  then show ?thesis ..
qed

text \<open>
  C10. \<open>Close\<close> on a response built by \<open>NewResponseFromHttp\<close> does not return, whatever the
  response and the body are: the call has no result, so there is no state after it in which
  the network body is closed.
\<close>

theorem Close_of_NewResponseFromHttp_never_returns:
  "Response_Close (NewResponseFromHttp resp b) = None"
  by (simp add: Response_Close_def NewResponseFromHttp_def IoReaderToReadSeekCloser_Close_None)

section \<open>Properties of the key digest\<close>

text \<open>
  C7. \<open>HashKey\<close> is a function of the selector and the key alone. A selector that
  \<open>strings.ToLower\<close> maps to \<open>plain\<close> returns the key; one it maps to \<open>sha224\<close>, \<open>sha384\<close>,
  \<open>sha512\<close>, \<open>sha1\<close>, \<open>md5\<close> or \<open>md4\<close> returns the hex digest of that algorithm; every other
  selector, the empty one among them, returns the hex SHA-256 digest; and two stores with
  the same selector give equal keys equal digests, whatever their filesystems hold.
\<close>

theorem HashKey_selectors:
  "(ToLower E (hash s) = ''plain'' \<longrightarrow> HashKey E s key = key)
   \<and> (ToLower E (hash s) = ''sha224'' \<longrightarrow> HashKey E s key = Sprintf_x (sha256_Sum224 E key))
   \<and> (ToLower E (hash s) = ''sha384'' \<longrightarrow> HashKey E s key = Sprintf_x (sha512_Sum384 E key))
   \<and> (ToLower E (hash s) = ''sha512'' \<longrightarrow> HashKey E s key = Sprintf_x (sha512_Sum512 E key))
   \<and> (ToLower E (hash s) = ''sha1'' \<longrightarrow> HashKey E s key = Sprintf_x (sha1_Sum E key))
   \<and> (ToLower E (hash s) = ''md5'' \<longrightarrow> HashKey E s key = Sprintf_x (md5_Sum E key))
   \<and> (ToLower E (hash s) = ''md4'' \<longrightarrow> HashKey E s key = Sprintf_x (md4_Sum E key))
   \<and> (ToLower E (hash s) \<notin> set [''sha224'', ''sha384'', ''sha512'', ''sha1'', ''md5'', ''md4'', ''plain'']
        \<longrightarrow> HashKey E s key = Sprintf_x (sha256_Sum256 E key))
   \<and> (hash s = [] \<longrightarrow> HashKey E s key = Sprintf_x (sha256_Sum256 E key))
   \<and> (hash s = hash s' \<and> key = key' \<longrightarrow> HashKey E s key = HashKey E s' key')"
  by (simp add: HashKey_def ToLower_def)

theorem HashKey_selectors_witness:
  "HashKey example_env (store_of ''Plain'' []) ''http://example.com/a'' = ''http://example.com/a''
   \<and> HashKey example_env (store_of ''SHA224'' []) ''ab'' = ''016162''
   \<and> HashKey example_env (store_of ''Sha384'' []) ''ab'' = ''026162''
   \<and> HashKey example_env (store_of ''sha512'' []) ''ab'' = ''036162''
   \<and> HashKey example_env (store_of ''SHA1'' []) ''ab'' = ''046162''
   \<and> HashKey example_env (store_of ''mD5'' []) ''ab'' = ''056162''
   \<and> HashKey example_env (store_of ''MD4'' []) ''ab'' = ''066162''
   \<and> HashKey example_env (store_of ''crc32'' []) ''ab'' = ''076162''
   \<and> HashKey example_env (store_of [] [(''request/v1/x'', ''y'')]) ''ab''
       = HashKey example_env (store_of [] []) ''ab''"
proof -
  have sel:
    "ToLower example_env (hash (store_of ''Plain'' [])) = ''plain''"
    "ToLower example_env (hash (store_of ''SHA224'' [])) = ''sha224''"
    "ToLower example_env (hash (store_of ''Sha384'' [])) = ''sha384''"
    "ToLower example_env (hash (store_of ''sha512'' [])) = ''sha512''"
    "ToLower example_env (hash (store_of ''SHA1'' [])) = ''sha1''"
    "ToLower example_env (hash (store_of ''mD5'' [])) = ''md5''"
    "ToLower example_env (hash (store_of ''MD4'' [])) = ''md4''"
    "ToLower example_env (hash (store_of ''crc32'' []))
       \<notin> set [''sha224'', ''sha384'', ''sha512'', ''sha1'', ''md5'', ''md4'', ''plain'']"
    by code_simp+
  have dig:
    "Sprintf_x (sha256_Sum224 example_env ''ab'') = ''016162''"
    "Sprintf_x (sha512_Sum384 example_env ''ab'') = ''026162''"
    "Sprintf_x (sha512_Sum512 example_env ''ab'') = ''036162''"
    "Sprintf_x (sha1_Sum example_env ''ab'') = ''046162''"
    "Sprintf_x (md5_Sum example_env ''ab'') = ''056162''"
    "Sprintf_x (md4_Sum example_env ''ab'') = ''066162''"
    "Sprintf_x (sha256_Sum256 example_env ''ab'') = ''076162''"
    by code_simp+
  have same: "hash (store_of [] [(''request/v1/x'', ''y'')]) = hash (store_of [] [])"
    by (simp add: store_of_def)
  show ?thesis
    using sel dig same
      HashKey_selectors[of example_env "store_of ''Plain'' []" "''http://example.com/a''"]
      HashKey_selectors[of example_env "store_of ''SHA224'' []" "''ab''"]
      HashKey_selectors[of example_env "store_of ''Sha384'' []" "''ab''"]
      HashKey_selectors[of example_env "store_of ''sha512'' []" "''ab''"]
      HashKey_selectors[of example_env "store_of ''SHA1'' []" "''ab''"]
      HashKey_selectors[of example_env "store_of ''mD5'' []" "''ab''"]
      HashKey_selectors[of example_env "store_of ''MD4'' []" "''ab''"]
      HashKey_selectors[of example_env "store_of ''crc32'' []" "''ab''"]
      HashKey_selectors[of example_env "store_of [] [(''request/v1/x'', ''y'')]" "''ab''"
        "store_of [] []" "''ab''"]
    by metis
qed

section \<open>Properties of retrieving, storing and deleting\<close>

lemma called_simps [simp]:
  "files (called c f) = files f" "fault (called c f) = fault f" "calls (called c f) = calls f @ [c]"
  by (simp_all add: called_def)

lemma sizePositive_Stat: "sizePositive (fst (Stat f path)) = existsNonEmpty f path"
  by (simp add: sizePositive_def Stat_def existsNonEmpty_def split: option.splits)

lemma snd_Stat [simp]: "snd (Stat f path) = called (Stat_call path) f"
  by (simp add: Stat_def)

lemma privateFileExists_eq:
  "privateFileExists f file =
     (if existsNonEmpty f (file @ ''.private'') then Some ErrFoundInStorePrivate else None,
      called (Stat_call (file @ ''.private'')) f)"
proof -
  obtain st f1 where S: "Stat f (file @ ''.private'') = (st, f1)"
    by (cases "Stat f (file @ ''.private'')")
  from S sizePositive_Stat[of f "file @ ''.private''"] snd_Stat[of f "file @ ''.private''"]
  have "sizePositive st = existsNonEmpty f (file @ ''.private'')"
    and "f1 = called (Stat_call (file @ ''.private'')) f"
    by simp_all
  with S show ?thesis by (simp add: privateFileExists_def)
qed

lemma missingOrEmpty_not_existsNonEmpty: "missingOrEmpty f path \<Longrightarrow> \<not> existsNonEmpty f path"
  by (simp add: missingOrEmpty_def existsNonEmpty_def split: option.splits)

text \<open>
  C4. A marker that exists with non-zero size wins over committed content: each retrieve
  returns \<open>ErrFoundInStorePrivate\<close> after the one \<open>Stat\<close> of the marker and no other call, so
  the content is neither opened nor returned, whatever the files hold at the content path.
  A marker that is missing or empty is no write in progress: \<open>privateFileExists\<close> returns
  nil.
\<close>

theorem marker_precedence:
  "(existsNonEmpty (fs s) (file @ ''.private'') \<longrightarrow>
      RetrieveRequestByFileName E s file =
        (Inl ErrFoundInStorePrivate, called (Stat_call (file @ ''.private'')) (fs s)))
   \<and> (existsNonEmpty (fs s) (requestPrefix @ formatPrefix @ HashKey E s key @ ''.private'') \<longrightarrow>
      RetrieveRequest E s key =
        (Inl ErrFoundInStorePrivate,
         called (Stat_call (requestPrefix @ formatPrefix @ HashKey E s key @ ''.private'')) (fs s)))
   \<and> (existsNonEmpty (fs s) (headerPrefix @ formatPrefix @ HashKey E s key @ ''.private'') \<longrightarrow>
      RetrieveResponseHeader E s key =
        (Inl ErrFoundInStorePrivate,
         called (Stat_call (headerPrefix @ formatPrefix @ HashKey E s key @ ''.private'')) (fs s)))
   \<and> (existsNonEmpty (fs s) (bodyPrefix @ formatPrefix @ HashKey E s key @ ''.private'') \<longrightarrow>
      RetrieveResponse E s key =
        (Inl ErrFoundInStorePrivate,
         called (Stat_call (bodyPrefix @ formatPrefix @ HashKey E s key @ ''.private'')) (fs s)))
   \<and> (missingOrEmpty (fs s) (file @ ''.private'') \<longrightarrow>
      privateFileExists (fs s) file = (None, called (Stat_call (file @ ''.private'')) (fs s)))"
  by (simp add: RetrieveRequestByFileName_def RetrieveRequest_def RetrieveRequestByHash_def
      RetrieveResponseHeader_def RetrieveResponse_def privateFileExists_eq
      missingOrEmpty_not_existsNonEmpty)


theorem marker_precedence_witness:
  "RetrieveRequestByFileName example_env marked_store ''request/v1/k'' =
     (Inl ErrFoundInStorePrivate, called (Stat_call ''request/v1/k.private'') (fs marked_store))
   \<and> RetrieveRequest example_env marked_store ''k'' =
     (Inl ErrFoundInStorePrivate, called (Stat_call ''request/v1/k.private'') (fs marked_store))
   \<and> RetrieveResponseHeader example_env marked_store ''k'' =
     (Inl ErrFoundInStorePrivate, called (Stat_call ''header/v1/k.private'') (fs marked_store))
   \<and> RetrieveResponse example_env marked_store ''k'' =
     (Inl ErrFoundInStorePrivate, called (Stat_call ''body/v1/k.private'') (fs marked_store))
   \<and> privateFileExists (fs marked_store) ''request/v1/j'' =
     (None, called (Stat_call ''request/v1/j.private'') (fs marked_store))"
proof -
  have k: "HashKey example_env marked_store ''k'' = ''k''"
    by code_simp
  have h: "existsNonEmpty (fs marked_store) ''request/v1/k.private''"
    "existsNonEmpty (fs marked_store) ''header/v1/k.private''"
    "existsNonEmpty (fs marked_store) ''body/v1/k.private''"
    "missingOrEmpty (fs marked_store) ''request/v1/j.private''"
    by code_simp+
  show ?thesis
    using marker_precedence[of marked_store "''request/v1/k''" example_env "''k''"]
      marker_precedence[of marked_store "''request/v1/j''" example_env "''k''"] h
    by (simp add: k requestPrefix_def headerPrefix_def bodyPrefix_def formatPrefix_def)
qed

lemma existsNonEmpty_called [simp]: "existsNonEmpty (called c f) path = existsNonEmpty f path"
  by (simp add: existsNonEmpty_def)

lemma foundInStore_eq:
  "foundInStore f name =
     (if existsNonEmpty f (name @ ''.private'')
      then (Some ErrFoundInStorePrivate, called (Stat_call (name @ ''.private'')) f)
      else if existsNonEmpty f name
      then (Some ErrFoundInStore, called (Stat_call name) (called (Stat_call (name @ ''.private'')) f))
      else (None, called (Stat_call name) (called (Stat_call (name @ ''.private'')) f)))"
proof -
  obtain st f1 where S: "Stat f (name @ ''.private'') = (st, f1)"
    by (cases "Stat f (name @ ''.private'')")
  obtain st' f2 where S': "Stat f1 name = (st', f2)"
    by (cases "Stat f1 name")
  from S sizePositive_Stat[of f "name @ ''.private''"] snd_Stat[of f "name @ ''.private''"]
  have 1: "sizePositive st = existsNonEmpty f (name @ ''.private'')"
    and 2: "f1 = called (Stat_call (name @ ''.private'')) f"
    by simp_all
  from S' sizePositive_Stat[of f1 name] snd_Stat[of f1 name]
  have 3: "sizePositive st' = existsNonEmpty f1 name" and 4: "f2 = called (Stat_call name) f1"
    by simp_all
  from S S' 1 2 3 4 show ?thesis
    by (simp add: foundInStore_def)
qed


lemma write_sequence_stored:
  assumes "healthy f"
  shows "stored f name b
           (case vfsCreatePrivateDummy E f (name @ ''.private'') of
              (ignored, f2) \<Rightarrow>
                (case vfsWrite E f2 name (b, None) of
                   (Some err, f3) \<Rightarrow> (Some err, f3)
                 | (None, f3) \<Rightarrow>
                     (case vfsDeletePrivateDummy E f3 (name @ ''.private'') of
                        (ignored', f4) \<Rightarrow> (None, f4))))"
  using assms
  by (simp add: stored_def healthy_def vfsCreatePrivateDummy_def vfsWrite_def
      vfsDeletePrivateDummy_def MkdirAll_def OpenFile_def Write_def Remove_def io_Copy_def
      called_def update_conv' delete_conv' IsNotExist_def)

lemma StoreRequest_cases:
  "(\<not> override \<and> existsNonEmpty (fs s) (requestPrefix @ formatPrefix @ HashKey E s key @ ''.private'') \<longrightarrow>
      refused (fs s) ErrFoundInStorePrivate
        [Stat_call (requestPrefix @ formatPrefix @ HashKey E s key @ ''.private'')]
        (StoreRequest E s h key override))
   \<and> (\<not> override \<and> \<not> existsNonEmpty (fs s) (requestPrefix @ formatPrefix @ HashKey E s key @ ''.private'')
        \<and> existsNonEmpty (fs s) (requestPrefix @ formatPrefix @ HashKey E s key) \<longrightarrow>
      refused (fs s) ErrFoundInStore
        [Stat_call (requestPrefix @ formatPrefix @ HashKey E s key @ ''.private''),
         Stat_call (requestPrefix @ formatPrefix @ HashKey E s key)]
        (StoreRequest E s h key override))
   \<and> (override \<and> healthy (fs s) \<and> requestBytes E h = Inr hb \<longrightarrow>
      stored (fs s) (requestPrefix @ formatPrefix @ HashKey E s key) hb
        (StoreRequest E s h key override))"
proof (intro conjI impI)
  assume a: "\<not> override \<and> existsNonEmpty (fs s) (requestPrefix @ formatPrefix @ HashKey E s key @ ''.private'')"
  then show "refused (fs s) ErrFoundInStorePrivate
        [Stat_call (requestPrefix @ formatPrefix @ HashKey E s key @ ''.private'')]
        (StoreRequest E s h key override)"
    by (simp add: StoreRequest_def Let_def foundInStore_eq refused_def)
next
  assume a: "\<not> override \<and> \<not> existsNonEmpty (fs s) (requestPrefix @ formatPrefix @ HashKey E s key @ ''.private'')
        \<and> existsNonEmpty (fs s) (requestPrefix @ formatPrefix @ HashKey E s key)"
  then show "refused (fs s) ErrFoundInStore
        [Stat_call (requestPrefix @ formatPrefix @ HashKey E s key @ ''.private''),
         Stat_call (requestPrefix @ formatPrefix @ HashKey E s key)]
        (StoreRequest E s h key override)"
    by (simp add: StoreRequest_def Let_def foundInStore_eq refused_def)
next
  assume a: "override \<and> healthy (fs s) \<and> requestBytes E h = Inr hb"
  then show "stored (fs s) (requestPrefix @ formatPrefix @ HashKey E s key) hb
        (StoreRequest E s h key override)"
    using write_sequence_stored[of "fs s" "requestPrefix @ formatPrefix @ HashKey E s key" hb E]
    by (simp add: StoreRequest_def Let_def)
qed

lemma storeBody_cases:
  "(\<not> override \<and> existsNonEmpty (fs s) (bodyPrefix @ formatPrefix @ HashKey E s key @ ''.private'') \<longrightarrow>
      refused (fs s) ErrFoundInStorePrivate
        [Stat_call (bodyPrefix @ formatPrefix @ HashKey E s key @ ''.private'')]
        (storeBody E s (b, None) key override))
   \<and> (\<not> override \<and> \<not> existsNonEmpty (fs s) (bodyPrefix @ formatPrefix @ HashKey E s key @ ''.private'')
        \<and> existsNonEmpty (fs s) (bodyPrefix @ formatPrefix @ HashKey E s key) \<longrightarrow>
      refused (fs s) ErrFoundInStore
        [Stat_call (bodyPrefix @ formatPrefix @ HashKey E s key @ ''.private''),
         Stat_call (bodyPrefix @ formatPrefix @ HashKey E s key)]
        (storeBody E s (b, None) key override))
   \<and> (override \<and> healthy (fs s) \<longrightarrow>
      stored (fs s) (bodyPrefix @ formatPrefix @ HashKey E s key) b
        (storeBody E s (b, None) key override))"
proof (intro conjI impI)
  assume a: "\<not> override \<and> existsNonEmpty (fs s) (bodyPrefix @ formatPrefix @ HashKey E s key @ ''.private'')"
  then show "refused (fs s) ErrFoundInStorePrivate
        [Stat_call (bodyPrefix @ formatPrefix @ HashKey E s key @ ''.private'')]
        (storeBody E s (b, None) key override)"
    by (simp add: storeBody_def Let_def foundInStore_eq refused_def)
next
  assume a: "\<not> override \<and> \<not> existsNonEmpty (fs s) (bodyPrefix @ formatPrefix @ HashKey E s key @ ''.private'')
        \<and> existsNonEmpty (fs s) (bodyPrefix @ formatPrefix @ HashKey E s key)"
  then show "refused (fs s) ErrFoundInStore
        [Stat_call (bodyPrefix @ formatPrefix @ HashKey E s key @ ''.private''),
         Stat_call (bodyPrefix @ formatPrefix @ HashKey E s key)]
        (storeBody E s (b, None) key override)"
    by (simp add: storeBody_def Let_def foundInStore_eq refused_def)
next
  assume a: "override \<and> healthy (fs s)"
  then show "stored (fs s) (bodyPrefix @ formatPrefix @ HashKey E s key) b
        (storeBody E s (b, None) key override)"
    using write_sequence_stored[of "fs s" "bodyPrefix @ formatPrefix @ HashKey E s key" "b" E]
    by (simp add: storeBody_def Let_def)
qed


lemma storeHeader_cases:
  "(\<not> override \<and> existsNonEmpty (fs s) (headerPrefix @ formatPrefix @ HashKey E s key @ ''.private'') \<longrightarrow>
      refused (fs s) ErrFoundInStorePrivate
        [Stat_call (headerPrefix @ formatPrefix @ HashKey E s key @ ''.private'')]
        (storeHeader E s code h key override))
   \<and> (\<not> override \<and> \<not> existsNonEmpty (fs s) (headerPrefix @ formatPrefix @ HashKey E s key @ ''.private'')
        \<and> existsNonEmpty (fs s) (headerPrefix @ formatPrefix @ HashKey E s key) \<longrightarrow>
      refused (fs s) ErrFoundInStore
        [Stat_call (headerPrefix @ formatPrefix @ HashKey E s key @ ''.private''),
         Stat_call (headerPrefix @ formatPrefix @ HashKey E s key)]
        (storeHeader E s code h key override))
   \<and> (override \<and> healthy (fs s) \<longrightarrow>
      stored (fs s) (headerPrefix @ formatPrefix @ HashKey E s key) (responseHeaderBytes E code h)
        (storeHeader E s code h key override))"
proof (intro conjI impI)
  assume a: "\<not> override \<and> existsNonEmpty (fs s) (headerPrefix @ formatPrefix @ HashKey E s key @ ''.private'')"
  then show "refused (fs s) ErrFoundInStorePrivate
        [Stat_call (headerPrefix @ formatPrefix @ HashKey E s key @ ''.private'')]
        (storeHeader E s code h key override)"
    by (simp add: storeHeader_def Let_def foundInStore_eq refused_def)
next
  assume a: "\<not> override \<and> \<not> existsNonEmpty (fs s) (headerPrefix @ formatPrefix @ HashKey E s key @ ''.private'')
        \<and> existsNonEmpty (fs s) (headerPrefix @ formatPrefix @ HashKey E s key)"
  then show "refused (fs s) ErrFoundInStore
        [Stat_call (headerPrefix @ formatPrefix @ HashKey E s key @ ''.private''),
         Stat_call (headerPrefix @ formatPrefix @ HashKey E s key)]
        (storeHeader E s code h key override)"
    by (simp add: storeHeader_def Let_def foundInStore_eq refused_def)
next
  assume a: "override \<and> healthy (fs s)"
  then show "stored (fs s) (headerPrefix @ formatPrefix @ HashKey E s key) (responseHeaderBytes E code h)
        (storeHeader E s code h key override)"
    using write_sequence_stored[of "fs s" "headerPrefix @ formatPrefix @ HashKey E s key" "responseHeaderBytes E code h" E]
    by (simp add: storeHeader_def Let_def)
qed



text \<open>
  C5. Without override, each of \<open>StoreRequest\<close>, \<open>storeBody\<close> and \<open>storeHeader\<close> fails with
  \<open>ErrFoundInStorePrivate\<close> when the marker exists with non-zero size, and otherwise with
  \<open>ErrFoundInStore\<close> when the content exists with non-zero size; in both cases the only
  calls made are the \<open>Stat\<close> calls of the check and no file has changed. With override, on a
  filesystem whose calls do not fail, the store succeeds, the content path holds the new
  bytes whatever it held before, the marker is gone and no other file has changed.
\<close>

theorem store_without_override_refuses:
  "((\<not> override \<and> existsNonEmpty (fs s) (requestPrefix @ formatPrefix @ HashKey E s key @ ''.private'') \<longrightarrow>
      refused (fs s) ErrFoundInStorePrivate
        [Stat_call (requestPrefix @ formatPrefix @ HashKey E s key @ ''.private'')]
        (StoreRequest E s h key override))
   \<and> (\<not> override \<and> \<not> existsNonEmpty (fs s) (requestPrefix @ formatPrefix @ HashKey E s key @ ''.private'')
        \<and> existsNonEmpty (fs s) (requestPrefix @ formatPrefix @ HashKey E s key) \<longrightarrow>
      refused (fs s) ErrFoundInStore
        [Stat_call (requestPrefix @ formatPrefix @ HashKey E s key @ ''.private''),
         Stat_call (requestPrefix @ formatPrefix @ HashKey E s key)]
        (StoreRequest E s h key override))
   \<and> (override \<and> healthy (fs s) \<and> requestBytes E h = Inr hb \<longrightarrow>
      stored (fs s) (requestPrefix @ formatPrefix @ HashKey E s key) hb
        (StoreRequest E s h key override)))
   \<and> ((\<not> override \<and> existsNonEmpty (fs s) (bodyPrefix @ formatPrefix @ HashKey E s key @ ''.private'') \<longrightarrow>
      refused (fs s) ErrFoundInStorePrivate
        [Stat_call (bodyPrefix @ formatPrefix @ HashKey E s key @ ''.private'')]
        (storeBody E s (b, None) key override))
   \<and> (\<not> override \<and> \<not> existsNonEmpty (fs s) (bodyPrefix @ formatPrefix @ HashKey E s key @ ''.private'')
        \<and> existsNonEmpty (fs s) (bodyPrefix @ formatPrefix @ HashKey E s key) \<longrightarrow>
      refused (fs s) ErrFoundInStore
        [Stat_call (bodyPrefix @ formatPrefix @ HashKey E s key @ ''.private''),
         Stat_call (bodyPrefix @ formatPrefix @ HashKey E s key)]
        (storeBody E s (b, None) key override))
   \<and> (override \<and> healthy (fs s) \<longrightarrow>
      stored (fs s) (bodyPrefix @ formatPrefix @ HashKey E s key) b
        (storeBody E s (b, None) key override)))
   \<and> ((\<not> override \<and> existsNonEmpty (fs s) (headerPrefix @ formatPrefix @ HashKey E s key @ ''.private'') \<longrightarrow>
      refused (fs s) ErrFoundInStorePrivate
        [Stat_call (headerPrefix @ formatPrefix @ HashKey E s key @ ''.private'')]
        (storeHeader E s code hdr key override))
   \<and> (\<not> override \<and> \<not> existsNonEmpty (fs s) (headerPrefix @ formatPrefix @ HashKey E s key @ ''.private'')
        \<and> existsNonEmpty (fs s) (headerPrefix @ formatPrefix @ HashKey E s key) \<longrightarrow>
      refused (fs s) ErrFoundInStore
        [Stat_call (headerPrefix @ formatPrefix @ HashKey E s key @ ''.private''),
         Stat_call (headerPrefix @ formatPrefix @ HashKey E s key)]
        (storeHeader E s code hdr key override))
   \<and> (override \<and> healthy (fs s) \<longrightarrow>
      stored (fs s) (headerPrefix @ formatPrefix @ HashKey E s key) (responseHeaderBytes E code hdr)
        (storeHeader E s code hdr key override)))"
  by (rule conjI[OF StoreRequest_cases conjI[OF storeBody_cases storeHeader_cases]])


theorem store_without_override_refuses_witness:
  "refused (fs marked_store) ErrFoundInStorePrivate [Stat_call ''request/v1/k.private'']
     (StoreRequest example_env marked_store (example_request ''/a'' ''HTTP/1.1'') ''k'' False)
   \<and> refused (fs marked_store) ErrFoundInStorePrivate [Stat_call ''body/v1/k.private'']
     (storeBody example_env marked_store (''new body'', None) ''k'' False)
   \<and> refused (fs marked_store) ErrFoundInStorePrivate [Stat_call ''header/v1/k.private'']
     (storeHeader example_env marked_store 404 [] ''k'' False)
   \<and> refused (fs committed_store) ErrFoundInStore
     [Stat_call ''request/v1/k.private'', Stat_call ''request/v1/k'']
     (StoreRequest example_env committed_store (example_request ''/a'' ''HTTP/1.1'') ''k'' False)
   \<and> refused (fs committed_store) ErrFoundInStore
     [Stat_call ''body/v1/k.private'', Stat_call ''body/v1/k'']
     (storeBody example_env committed_store (''new body'', None) ''k'' False)
   \<and> refused (fs committed_store) ErrFoundInStore
     [Stat_call ''header/v1/k.private'', Stat_call ''header/v1/k'']
     (storeHeader example_env committed_store 404 [] ''k'' False)
   \<and> stored (fs marked_store) ''request/v1/k''
     (''GET http://example.com/a HTTP/1.1'' @ [CR, LF] @ ''Host: example.com'' @ [CR, LF, CR, LF])
     (StoreRequest example_env marked_store (example_request ''/a'' ''HTTP/1.1'') ''k'' True)
   \<and> stored (fs marked_store) ''body/v1/k'' ''new body''
     (storeBody example_env marked_store (''new body'', None) ''k'' True)
   \<and> stored (fs marked_store) ''header/v1/k'' (''HTTP/1.1 404 Not Found'' @ [CR, LF, CR, LF])
     (storeHeader example_env marked_store 404 [] ''k'' True)"
proof -
  have k: "HashKey example_env marked_store ''k'' = ''k''"
    "HashKey example_env committed_store ''k'' = ''k''"
    by code_simp+
  have m: "existsNonEmpty (fs marked_store) ''request/v1/k.private''"
    "existsNonEmpty (fs marked_store) ''body/v1/k.private''"
    "existsNonEmpty (fs marked_store) ''header/v1/k.private''"
    by code_simp+
  have c: "\<not> existsNonEmpty (fs committed_store) ''request/v1/k.private''"
    "\<not> existsNonEmpty (fs committed_store) ''body/v1/k.private''"
    "\<not> existsNonEmpty (fs committed_store) ''header/v1/k.private''"
    "existsNonEmpty (fs committed_store) ''request/v1/k''"
    "existsNonEmpty (fs committed_store) ''body/v1/k''"
    "existsNonEmpty (fs committed_store) ''header/v1/k''"
    by code_simp+
  have h: "healthy (fs marked_store)"
    by (simp add: healthy_def marked_store_def store_of_def fs_of_def)
  have b: "requestBytes example_env (example_request ''/a'' ''HTTP/1.1'') =
      Inr (''GET http://example.com/a HTTP/1.1'' @ [CR, LF] @ ''Host: example.com'' @ [CR, LF, CR, LF])"
    "responseHeaderBytes example_env 404 [] = ''HTTP/1.1 404 Not Found'' @ [CR, LF, CR, LF]"
    by code_simp+
  show ?thesis
    using m c h b
      store_without_override_refuses[of False marked_store example_env "''k''"
        "example_request ''/a'' ''HTTP/1.1''" _ "''new body''" 404 "[]"]
      store_without_override_refuses[of False committed_store example_env "''k''"
        "example_request ''/a'' ''HTTP/1.1''" _ "''new body''" 404 "[]"]
      store_without_override_refuses[of True marked_store example_env "''k''"
        "example_request ''/a'' ''HTTP/1.1''"
        "''GET http://example.com/a HTTP/1.1'' @ [CR, LF] @ ''Host: example.com'' @ [CR, LF, CR, LF]"
        "''new body''" 404 "[]"]
    by (simp add: k requestPrefix_def headerPrefix_def bodyPrefix_def formatPrefix_def)
qed

lemma delete_sequence:
  "(fault f (Remove_call name) = None \<and> map_of (files f) name = None \<longrightarrow>
      refused f ErrNotFoundInStore [Remove_call name]
        (case DelByFilename f name of
           (Some err, f1) \<Rightarrow> (Some err, f1)
         | (None, f1) \<Rightarrow>
             (case DelByFilename f1 (name @ ''.private'') of (ignored, f2) \<Rightarrow> (None, f2))))
   \<and> (fault f (Remove_call name) = Some e \<longrightarrow>
      refused f (if e = ENOENT then ErrNotFoundInStore else IOError e) [Remove_call name]
        (case DelByFilename f name of
           (Some err, f1) \<Rightarrow> (Some err, f1)
         | (None, f1) \<Rightarrow>
             (case DelByFilename f1 (name @ ''.private'') of (ignored, f2) \<Rightarrow> (None, f2))))
   \<and> (fault f (Remove_call name) = None \<and> map_of (files f) name = Some c \<longrightarrow>
      deleted f name
        (case DelByFilename f name of
           (Some err, f1) \<Rightarrow> (Some err, f1)
         | (None, f1) \<Rightarrow>
             (case DelByFilename f1 (name @ ''.private'') of (ignored, f2) \<Rightarrow> (None, f2))))"
  by (auto simp: refused_def deleted_def DelByFilename_def Remove_def called_def IsNotExist_def
      delete_conv' split: option.splits)

lemma DelRequest_cases:
  "(fault (fs s) (Remove_call (requestPrefix @ formatPrefix @ HashKey E s key)) = None \<and> map_of (files (fs s)) (requestPrefix @ formatPrefix @ HashKey E s key) = None \<longrightarrow>
      refused (fs s) ErrNotFoundInStore [Remove_call (requestPrefix @ formatPrefix @ HashKey E s key)] (DelRequest E s key))
   \<and> (fault (fs s) (Remove_call (requestPrefix @ formatPrefix @ HashKey E s key)) = Some e \<longrightarrow>
      refused (fs s) (if e = ENOENT then ErrNotFoundInStore else IOError e) [Remove_call (requestPrefix @ formatPrefix @ HashKey E s key)]
        (DelRequest E s key))
   \<and> (fault (fs s) (Remove_call (requestPrefix @ formatPrefix @ HashKey E s key)) = None \<and> map_of (files (fs s)) (requestPrefix @ formatPrefix @ HashKey E s key) = Some c \<longrightarrow>
      deleted (fs s) (requestPrefix @ formatPrefix @ HashKey E s key) (DelRequest E s key))"
  using delete_sequence[of "fs s" "requestPrefix @ formatPrefix @ HashKey E s key" e c]
  unfolding DelRequest_def by (simp only: append_assoc)

lemma DelResponseBody_cases:
  "(fault (fs s) (Remove_call (bodyPrefix @ formatPrefix @ HashKey E s key)) = None \<and> map_of (files (fs s)) (bodyPrefix @ formatPrefix @ HashKey E s key) = None \<longrightarrow>
      refused (fs s) ErrNotFoundInStore [Remove_call (bodyPrefix @ formatPrefix @ HashKey E s key)] (DelResponseBody E s key))
   \<and> (fault (fs s) (Remove_call (bodyPrefix @ formatPrefix @ HashKey E s key)) = Some e \<longrightarrow>
      refused (fs s) (if e = ENOENT then ErrNotFoundInStore else IOError e) [Remove_call (bodyPrefix @ formatPrefix @ HashKey E s key)]
        (DelResponseBody E s key))
   \<and> (fault (fs s) (Remove_call (bodyPrefix @ formatPrefix @ HashKey E s key)) = None \<and> map_of (files (fs s)) (bodyPrefix @ formatPrefix @ HashKey E s key) = Some c \<longrightarrow>
      deleted (fs s) (bodyPrefix @ formatPrefix @ HashKey E s key) (DelResponseBody E s key))"
  using delete_sequence[of "fs s" "bodyPrefix @ formatPrefix @ HashKey E s key" e c]
  unfolding DelResponseBody_def by (simp only: append_assoc)

lemma DelResponseHeader_cases:
  "(fault (fs s) (Remove_call (headerPrefix @ formatPrefix @ HashKey E s key)) = None \<and> map_of (files (fs s)) (headerPrefix @ formatPrefix @ HashKey E s key) = None \<longrightarrow>
      refused (fs s) ErrNotFoundInStore [Remove_call (headerPrefix @ formatPrefix @ HashKey E s key)] (DelResponseHeader E s key))
   \<and> (fault (fs s) (Remove_call (headerPrefix @ formatPrefix @ HashKey E s key)) = Some e \<longrightarrow>
      refused (fs s) (if e = ENOENT then ErrNotFoundInStore else IOError e) [Remove_call (headerPrefix @ formatPrefix @ HashKey E s key)]
        (DelResponseHeader E s key))
   \<and> (fault (fs s) (Remove_call (headerPrefix @ formatPrefix @ HashKey E s key)) = None \<and> map_of (files (fs s)) (headerPrefix @ formatPrefix @ HashKey E s key) = Some c \<longrightarrow>
      deleted (fs s) (headerPrefix @ formatPrefix @ HashKey E s key) (DelResponseHeader E s key))"
  using delete_sequence[of "fs s" "headerPrefix @ formatPrefix @ HashKey E s key" e c]
  unfolding DelResponseHeader_def by (simp only: append_assoc)

lemma DelResponse_cases:
  "(DelResponseBody E s key = (Some err, f1) \<longrightarrow> DelResponse E s key = (Some err, f1))
   \<and> (DelResponseBody E s key = (None, f1) \<longrightarrow>
        DelResponse E s key = DelResponseHeader E (s\<lparr>fs := f1\<rparr>) key)"
  by (auto simp: DelResponse_def split: prod.splits option.splits)

text \<open>
  C8. Each of \<open>DelRequest\<close>, \<open>DelResponseBody\<close> and \<open>DelResponseHeader\<close> removes the content
  path first. When the content is absent the result is \<open>ErrNotFoundInStore\<close>; when the removal
  fails with another error that error is returned; in both cases nothing else is tried.
  When the content is removed the result is nil after one attempt to remove the marker,
  whether the marker was there or not and whether its removal failed or not. \<open>DelResponse\<close>
  returns the error of \<open>DelResponseBody\<close> if there is one and is \<open>DelResponseHeader\<close> on the
  resulting filesystem otherwise.
\<close>

theorem delete_content_then_marker:
  "((fault (fs s) (Remove_call (requestPrefix @ formatPrefix @ HashKey E s key)) = None \<and> map_of (files (fs s)) (requestPrefix @ formatPrefix @ HashKey E s key) = None \<longrightarrow>
      refused (fs s) ErrNotFoundInStore [Remove_call (requestPrefix @ formatPrefix @ HashKey E s key)] (DelRequest E s key))
   \<and> (fault (fs s) (Remove_call (requestPrefix @ formatPrefix @ HashKey E s key)) = Some e \<longrightarrow>
      refused (fs s) (if e = ENOENT then ErrNotFoundInStore else IOError e) [Remove_call (requestPrefix @ formatPrefix @ HashKey E s key)]
        (DelRequest E s key))
   \<and> (fault (fs s) (Remove_call (requestPrefix @ formatPrefix @ HashKey E s key)) = None \<and> map_of (files (fs s)) (requestPrefix @ formatPrefix @ HashKey E s key) = Some c \<longrightarrow>
      deleted (fs s) (requestPrefix @ formatPrefix @ HashKey E s key) (DelRequest E s key)))
   \<and> ((fault (fs s) (Remove_call (bodyPrefix @ formatPrefix @ HashKey E s key)) = None \<and> map_of (files (fs s)) (bodyPrefix @ formatPrefix @ HashKey E s key) = None \<longrightarrow>
      refused (fs s) ErrNotFoundInStore [Remove_call (bodyPrefix @ formatPrefix @ HashKey E s key)] (DelResponseBody E s key))
   \<and> (fault (fs s) (Remove_call (bodyPrefix @ formatPrefix @ HashKey E s key)) = Some e \<longrightarrow>
      refused (fs s) (if e = ENOENT then ErrNotFoundInStore else IOError e) [Remove_call (bodyPrefix @ formatPrefix @ HashKey E s key)]
        (DelResponseBody E s key))
   \<and> (fault (fs s) (Remove_call (bodyPrefix @ formatPrefix @ HashKey E s key)) = None \<and> map_of (files (fs s)) (bodyPrefix @ formatPrefix @ HashKey E s key) = Some c \<longrightarrow>
      deleted (fs s) (bodyPrefix @ formatPrefix @ HashKey E s key) (DelResponseBody E s key)))
   \<and> ((fault (fs s) (Remove_call (headerPrefix @ formatPrefix @ HashKey E s key)) = None \<and> map_of (files (fs s)) (headerPrefix @ formatPrefix @ HashKey E s key) = None \<longrightarrow>
      refused (fs s) ErrNotFoundInStore [Remove_call (headerPrefix @ formatPrefix @ HashKey E s key)] (DelResponseHeader E s key))
   \<and> (fault (fs s) (Remove_call (headerPrefix @ formatPrefix @ HashKey E s key)) = Some e \<longrightarrow>
      refused (fs s) (if e = ENOENT then ErrNotFoundInStore else IOError e) [Remove_call (headerPrefix @ formatPrefix @ HashKey E s key)]
        (DelResponseHeader E s key))
   \<and> (fault (fs s) (Remove_call (headerPrefix @ formatPrefix @ HashKey E s key)) = None \<and> map_of (files (fs s)) (headerPrefix @ formatPrefix @ HashKey E s key) = Some c \<longrightarrow>
      deleted (fs s) (headerPrefix @ formatPrefix @ HashKey E s key) (DelResponseHeader E s key)))
   \<and> (DelResponseBody E s key = (Some err, f1) \<longrightarrow> DelResponse E s key = (Some err, f1))
   \<and> (DelResponseBody E s key = (None, f1) \<longrightarrow>
        DelResponse E s key = DelResponseHeader E (s\<lparr>fs := f1\<rparr>) key)"
  by (rule conjI[OF DelRequest_cases conjI[OF DelResponseBody_cases
        conjI[OF DelResponseHeader_cases DelResponse_cases]]])


theorem delete_content_then_marker_witness:
  "refused (fs committed_store) ErrNotFoundInStore [Remove_call ''request/v1/zz'']
     (DelRequest example_env committed_store ''zz'')
   \<and> refused (fs faulty_store) (IOError (EIO ''permission denied'')) [Remove_call ''request/v1/k'']
     (DelRequest example_env faulty_store ''k'')
   \<and> deleted (fs committed_store) ''request/v1/k'' (DelRequest example_env committed_store ''k'')
   \<and> deleted (fs faulty_store) ''body/v1/k'' (DelResponseBody example_env faulty_store ''k'')
   \<and> deleted (fs marked_store) ''header/v1/k'' (DelResponseHeader example_env marked_store ''k'')
   \<and> DelResponse example_env committed_store ''zz'' =
       (Some ErrNotFoundInStore, snd (DelResponseBody example_env committed_store ''zz''))
   \<and> DelResponse example_env committed_store ''k'' =
       DelResponseHeader example_env
         (committed_store\<lparr>fs := snd (DelResponseBody example_env committed_store ''k'')\<rparr>) ''k''"
proof -
  have k: "HashKey example_env committed_store ''k'' = ''k''"
    "HashKey example_env committed_store ''zz'' = ''zz''"
    "HashKey example_env faulty_store ''k'' = ''k''"
    "HashKey example_env marked_store ''k'' = ''k''"
    by code_simp+
  have a: "fault (fs committed_store) (Remove_call ''request/v1/zz'') = None"
    "map_of (files (fs committed_store)) ''request/v1/zz'' = None"
    "fault (fs committed_store) (Remove_call ''body/v1/zz'') = None"
    "map_of (files (fs committed_store)) ''body/v1/zz'' = None"
    "fault (fs faulty_store) (Remove_call ''request/v1/k'') = Some (EIO ''permission denied'')"
    "fault (fs committed_store) (Remove_call ''request/v1/k'') = None"
    "map_of (files (fs committed_store)) ''request/v1/k'' =
       Some (''GET http://example.com/a HTTP/1.1'' @ [CR, LF, CR, LF])"
    "fault (fs committed_store) (Remove_call ''body/v1/k'') = None"
    "map_of (files (fs committed_store)) ''body/v1/k'' = Some ''hello''"
    "fault (fs faulty_store) (Remove_call ''body/v1/k'') = None"
    "map_of (files (fs faulty_store)) ''body/v1/k'' = Some ''hello''"
    "fault (fs marked_store) (Remove_call ''header/v1/k'') = None"
    "map_of (files (fs marked_store)) ''header/v1/k'' = Some (''HTTP/1.1 200 OK'' @ [CR, LF, CR, LF])"
    by code_simp+
  note p = requestPrefix_def headerPrefix_def bodyPrefix_def formatPrefix_def
  have 1: "refused (fs committed_store) ErrNotFoundInStore [Remove_call ''request/v1/zz'']
     (DelRequest example_env committed_store ''zz'')"
    and zb: "refused (fs committed_store) ErrNotFoundInStore [Remove_call ''body/v1/zz'']
     (DelResponseBody example_env committed_store ''zz'')"
    using a delete_content_then_marker[of committed_store example_env "''zz''"]
    by (simp_all add: k p)
  have 2: "refused (fs faulty_store) (IOError (EIO ''permission denied'')) [Remove_call ''request/v1/k'']
     (DelRequest example_env faulty_store ''k'')"
    and 4: "deleted (fs faulty_store) ''body/v1/k'' (DelResponseBody example_env faulty_store ''k'')"
    using a delete_content_then_marker[of faulty_store example_env "''k''" "EIO ''permission denied''"
        "''hello''"]
    by (simp_all add: k p)
  have 3: "deleted (fs committed_store) ''request/v1/k'' (DelRequest example_env committed_store ''k'')"
    using a delete_content_then_marker[of committed_store example_env "''k''" _
        "''GET http://example.com/a HTTP/1.1'' @ [CR, LF, CR, LF]"]
    by (simp add: k p)
  have kb: "deleted (fs committed_store) ''body/v1/k'' (DelResponseBody example_env committed_store ''k'')"
    using a delete_content_then_marker[of committed_store example_env "''k''" _ "''hello''"]
    by (simp add: k p)
  have 5: "deleted (fs marked_store) ''header/v1/k'' (DelResponseHeader example_env marked_store ''k'')"
    using a delete_content_then_marker[of marked_store example_env "''k''" _
        "''HTTP/1.1 200 OK'' @ [CR, LF, CR, LF]"]
    by (simp add: k p)
  have b1: "DelResponseBody example_env committed_store ''zz'' =
      (Some ErrNotFoundInStore, snd (DelResponseBody example_env committed_store ''zz''))"
    using zb by (simp add: refused_def prod_eq_iff)
  have b2: "DelResponseBody example_env committed_store ''k'' =
      (None, snd (DelResponseBody example_env committed_store ''k''))"
    using kb by (simp add: deleted_def prod_eq_iff)
  have 6: "DelResponse example_env committed_store ''zz'' =
       (Some ErrNotFoundInStore, snd (DelResponseBody example_env committed_store ''zz''))"
    using b1 delete_content_then_marker[of committed_store example_env "''zz''" _ _ ErrNotFoundInStore
        "snd (DelResponseBody example_env committed_store ''zz'')"]
    by blast
  have 7: "DelResponse example_env committed_store ''k'' =
       DelResponseHeader example_env
         (committed_store\<lparr>fs := snd (DelResponseBody example_env committed_store ''k'')\<rparr>) ''k''"
    using b2 delete_content_then_marker[of committed_store example_env "''k''" _ _ _
        "snd (DelResponseBody example_env committed_store ''k'')"]
    by blast
  from 1 2 3 4 5 6 7 show ?thesis by blast
qed

text \<open>
  A content file of zero length with no marker in the way: retrieving a request or a
  response answers \<open>ErrFoundWithZeroInStore\<close> after the size check; retrieving a response
  header has no size check, reads the first line of the empty file and answers \<open>io.EOF\<close>.
\<close>

lemma found_empty_request:
  assumes "\<not> existsNonEmpty (fs s) (file @ ''.private'')"
    and "fault (fs s) (Open_call file) = None" and "fault (fs s) (Stat_call file) = None"
    and "map_of (files (fs s)) file = Some []"
  shows "fst (RetrieveRequestByFileName E s file) = Inl ErrFoundWithZeroInStore"
  using assms
  by (simp add: RetrieveRequestByFileName_def privateFileExists_eq Open_def Stat_def)

lemma found_empty_body:
  assumes "\<not> existsNonEmpty (fs s) (bodyPrefix @ formatPrefix @ HashKey E s key @ ''.private'')"
    and "fault (fs s) (Open_call (bodyPrefix @ formatPrefix @ HashKey E s key)) = None"
    and "fault (fs s) (Stat_call (bodyPrefix @ formatPrefix @ HashKey E s key)) = None"
    and "map_of (files (fs s)) (bodyPrefix @ formatPrefix @ HashKey E s key) = Some []"
  shows "fst (RetrieveResponse E s key) = Inl ErrFoundWithZeroInStore"
  using assms
  by (simp add: RetrieveResponse_def privateFileExists_eq Open_def Stat_def)

lemma found_empty_header_is_EOF:
  assumes "\<not> existsNonEmpty (fs s) (headerPrefix @ formatPrefix @ HashKey E s key @ ''.private'')"
    and "fault (fs s) (Open_call (headerPrefix @ formatPrefix @ HashKey E s key)) = None"
    and "map_of (files (fs s)) (headerPrefix @ formatPrefix @ HashKey E s key) = Some []"
  shows "fst (RetrieveResponseHeader E s key) = Inl EOF"
  using assms
  by (simp add: RetrieveResponseHeader_def privateFileExists_eq Open_def
      readResponseHeaders_def textproto_NewReader_def ReadLine_def)

text \<open>
  C2. On the store whose three records of key \<open>k\<close> are empty files, \<open>RetrieveResponseHeader\<close>
  returns \<open>io.EOF\<close>, where \<open>RetrieveRequest\<close> and \<open>RetrieveResponse\<close> return
  \<open>ErrFoundWithZeroInStore\<close>.
\<close>

theorem RetrieveResponseHeader_of_empty_file:
  "fst (RetrieveResponseHeader example_env empty_records_store ''k'') = Inl EOF
   \<and> fst (RetrieveRequest example_env empty_records_store ''k'') = Inl ErrFoundWithZeroInStore
   \<and> fst (RetrieveResponse example_env empty_records_store ''k'') = Inl ErrFoundWithZeroInStore"
  by code_simp

section \<open>Properties of fetch-and-store\<close>

lemma healthy_called [simp]: "healthy (called c f) = healthy f"
  by (simp add: healthy_def)








lemma body_header_paths_differ [simp]:
  "bodyPrefix @ x \<noteq> headerPrefix @ y" "headerPrefix @ y \<noteq> bodyPrefix @ x"
  "bodyPrefix \<noteq> headerPrefix" "headerPrefix \<noteq> bodyPrefix"
  by (simp_all add: bodyPrefix_def headerPrefix_def)

lemma HashKey_fs [simp]: "HashKey E (s\<lparr>fs := f\<rparr>) key = HashKey E s key"
  by (simp add: HashKey_def)







section \<open>Properties of the enumeration\<close>

lemma Retrieve_frame:
  "files (snd (RetrieveRequestByFileName E s p)) = files (fs s) \<and>
   fault (snd (RetrieveRequestByFileName E s p)) = fault (fs s)"
  by (simp add: RetrieveRequestByFileName_def privateFileExists_def Stat_def Open_def
      split: option.splits sum.splits prod.splits)

lemma Retrieve_cong:
  assumes "files f = files (fs s)" "fault f = fault (fs s)"
  shows "fst (RetrieveRequestByFileName E (s\<lparr>fs := f\<rparr>) p) = fst (RetrieveRequestByFileName E s p)"
  using assms
  by (simp add: RetrieveRequestByFileName_def privateFileExists_def Stat_def Open_def
      split: option.splits sum.splits prod.splits)

lemma walkRequests_eq:
  assumes "files f = files (fs s)" "fault f = fault (fs s)" "list_all (\<lambda>v. snd v = None) visits"
  shows "fst (walkRequests E s visits acc f) = acc @ List.map_filter (decodes E s) (map fst visits)"
  using assms
proof (induction visits arbitrary: acc f)
  case Nil
  then show ?case by simp
next
  case (Cons v visits)
  obtain p where v: "v = (p, None)" using Cons.prems(3) by (cases v) auto
  obtain r f1 where R: "RetrieveRequestByFileName E (s\<lparr>fs := f\<rparr>) p = (r, f1)"
    by (cases "RetrieveRequestByFileName E (s\<lparr>fs := f\<rparr>) p")
  have fr: "files f1 = files (fs s)" "fault f1 = fault (fs s)"
    using Retrieve_frame[of E "s\<lparr>fs := f\<rparr>" p] R Cons.prems by simp_all
  have r: "r = fst (RetrieveRequestByFileName E s p)"
    using Retrieve_cong[OF Cons.prems(1,2), of E p] R by simp
  have rest: "list_all (\<lambda>v. snd v = None) visits" using Cons.prems(3) by simp
  show ?case
  proof (cases r)
    case (Inl e)
    have e: "fst (RetrieveRequestByFileName E s p) = Inl e" using r Inl by simp
    from v R Inl e Cons.IH[OF fr rest, of acc] show ?thesis
      by (simp add: decodes_def)
  next
    case (Inr q)
    have q: "fst (RetrieveRequestByFileName E s p) = Inr q" using r Inr by simp
    from v R Inr q Cons.IH[OF fr rest, of "acc @ [q]"] show ?thesis
      by (simp add: decodes_def)
  qed
qed

text \<open>
  C9. When the walk itself meets no error, \<open>RetrieveAllRequests\<close> returns, in the order of the
  walk, exactly the requests of the visited paths whose retrieval succeeds, and leaves out
  every other path; and the walk visits every file below the request prefix. The closed
  instance that follows is the scenario of three stored requests of which the second is
  corrupted: the result is the first and the third.
\<close>

theorem RetrieveAllRequests_best_effort:
  assumes "list_all (\<lambda>v. snd v = None) (walkVisits (fs s) (requestPrefix @ formatPrefix))"
  shows "fst (RetrieveAllRequests E s) =
           List.map_filter (decodes E s) (map fst (walkVisits (fs s) (requestPrefix @ formatPrefix)))
         \<and> (\<forall>p. p \<in> fst ` set (files (fs s)) \<and> prefix (requestPrefix @ formatPrefix) p \<longrightarrow>
                p \<in> set (map fst (walkVisits (fs s) (requestPrefix @ formatPrefix))))"
proof
  show "fst (RetrieveAllRequests E s) =
           List.map_filter (decodes E s) (map fst (walkVisits (fs s) (requestPrefix @ formatPrefix)))"
    using walkRequests_eq[OF refl refl assms, where E = E and acc = "[]"] by (simp add: RetrieveAllRequests_def)
  show "\<forall>p. p \<in> fst ` set (files (fs s)) \<and> prefix (requestPrefix @ formatPrefix) p \<longrightarrow>
                p \<in> set (map fst (walkVisits (fs s) (requestPrefix @ formatPrefix)))"
    by (auto simp: walkVisits_def)
qed


theorem RetrieveAllRequests_best_effort_witness:
  "map fst (files (fs corrupted_store)) = [''request/v1/0761'', ''request/v1/0762'', ''request/v1/0763'']
   \<and> fst (RetrieveAllRequests example_env corrupted_store) =
       [example_request ''/a'' ''HTTP/1.1'', example_request ''/c'' ''HTTP/1.1'']"
proof -
  have f: "map fst (files (fs corrupted_store)) =
      [''request/v1/0761'', ''request/v1/0762'', ''request/v1/0763'']"
    by code_simp
  have h: "list_all (\<lambda>v. snd v = None) (walkVisits (fs corrupted_store) (requestPrefix @ formatPrefix))"
    by code_simp
  have e: "List.map_filter (decodes example_env corrupted_store)
             (map fst (walkVisits (fs corrupted_store) (requestPrefix @ formatPrefix))) =
           [example_request ''/a'' ''HTTP/1.1'', example_request ''/c'' ''HTTP/1.1'']"
    by code_simp
  show ?thesis
    using RetrieveAllRequests_best_effort[OF h, of example_env] e f by simp
qed

section \<open>Properties of the wire codec\<close>

lemma splitLines_append: "LF \<notin> set l \<Longrightarrow> splitLines acc (l @ rest) = splitLines (acc @ l) rest"
  by (induction l arbitrary: acc) auto

lemma splitLines_line:
  "LF \<notin> set l \<Longrightarrow> splitLines [] (l @ [CR, LF] @ rest) = l # splitLines [] rest"
  by (simp add: splitLines_append dropCR_def)

lemma validByte_not_break: "validHeaderValueByte c \<Longrightarrow> c \<noteq> LF \<and> c \<noteq> CR"
  by (auto simp: validHeaderValueByte_def)

lemma valid_value_no_break: "list_all validHeaderValueByte v \<Longrightarrow> LF \<notin> set v \<and> CR \<notin> set v"
  using validByte_not_break by (auto simp: list_all_iff)

lemma headerNewlineToSpace_id: "list_all validHeaderValueByte v \<Longrightarrow> headerNewlineToSpace v = v"
  unfolding headerNewlineToSpace_def
  using validByte_not_break by (induction v) auto

lemma dropWhile_id: "xs = [] \<or> \<not> P (hd xs) \<Longrightarrow> dropWhile P xs = xs"
  by (cases xs) auto

lemma trim_both_id:
  assumes "v = [] \<or> (\<not> P (hd v) \<and> \<not> P (last v))"
  shows "rev (dropWhile P (rev (dropWhile P v))) = v"
proof (cases "v = []")
  case True
  then show ?thesis by simp
next
  case False
  with assms have a: "\<not> P (hd v)" "\<not> P (last v)" by auto
  from False a have 1: "dropWhile P v = v" by (simp add: dropWhile_id)
  from False a have 2: "dropWhile P (rev v) = rev v"
    by (intro dropWhile_id) (simp add: hd_rev)
  show ?thesis by (simp add: 1 2)
qed

lemma TrimString_id: "validHeaderValue v \<Longrightarrow> TrimString v = v"
  unfolding TrimString_def
proof (rule trim_both_id)
  assume v: "validHeaderValue v"
  show "v = [] \<or> (\<not> isASCIISpace (hd v) \<and> \<not> isASCIISpace (last v))"
  proof (cases "v = []")
    case True then show ?thesis by simp
  next
    case False
    then have "hd v \<in> set v" "last v \<in> set v" by simp_all
    with v valid_value_no_break[of v] have "hd v \<noteq> LF" "hd v \<noteq> CR" "last v \<noteq> LF" "last v \<noteq> CR"
      by (auto simp: validHeaderValue_def)
    with v False show ?thesis
      by (auto simp: validHeaderValue_def isASCIISpace_def isSpaceOrTab_def)
  qed
qed

lemma header_line_valid:
  "validHeaderValue v \<Longrightarrow> header_line k v = k @ '': '' @ v @ [CR, LF]"
  by (simp add: header_line_def TrimString_id headerNewlineToSpace_id validHeaderValue_def)

lemma token_not_special:
  "isTokenByte c \<Longrightarrow> c \<noteq> SP \<and> c \<noteq> TAB \<and> c \<noteq> CR \<and> c \<noteq> LF \<and> c \<noteq> CHR '':''"
  by (auto simp: isTokenByte_def isLower_def isUpper_def isDigit_def)

lemma field_name_facts:
  assumes "ValidHeaderFieldName k"
  shows "k \<noteq> []" "\<not> isSpaceOrTab (hd k)" "CHR '':'' \<notin> set k" "LF \<notin> set k" "SP \<notin> set k"
    "list_all isTokenByte k"
proof -
  from assms show ne: "k \<noteq> []" and all: "list_all isTokenByte k"
    by (simp_all add: ValidHeaderFieldName_def)
  from all token_not_special show "CHR '':'' \<notin> set k" "LF \<notin> set k" "SP \<notin> set k"
    by (auto simp: list_all_iff)
  from ne have "hd k \<in> set k" by simp
  with all token_not_special show "\<not> isSpaceOrTab (hd k)"
    by (auto simp: list_all_iff isSpaceOrTab_def)
qed

lemma canonicalize_Nil_iff [simp]: "(canonicalize u k = []) = (k = [])"
  by (cases k) (simp_all add: Let_def)

lemma canonicalMIMEHeaderKey_valid:
  "ValidHeaderFieldName k \<Longrightarrow> canonicalMIMEHeaderKey k = (canonicalize True k, True)"
  using field_name_facts[of k]
  by (auto simp: canonicalMIMEHeaderKey_def list_ex_iff list_all_iff)

lemma Cut_colon: "CHR '':'' \<notin> set k \<Longrightarrow> Cut (k @ CHR '':'' # w) (CHR '':'') = Some (k, w)"
  unfolding Cut_def by (induction k) auto

lemma trim_kv:
  assumes "ValidHeaderFieldName k" "validHeaderValue v"
  shows "trim (k @ CHR '':'' # SP # v) = k @ CHR '':'' # (if v = [] then [] else SP # v)"
proof (cases "v = []")
  case True
  from assms(1) have "dropWhile isSpaceOrTab (k @ [CHR '':'', SP]) = k @ [CHR '':'', SP]"
    using field_name_facts(1,2)[of k] by (intro dropWhile_id) simp
  with True show ?thesis
    by (simp add: trim_def isSpaceOrTab_def)
next
  case False
  have "trim (k @ CHR '':'' # SP # v) = k @ CHR '':'' # SP # v"
    unfolding trim_def
  proof (rule trim_both_id)
    from assms False field_name_facts(1,2)[of k]
    show "k @ CHR '':'' # SP # v = [] \<or>
      (\<not> isSpaceOrTab (hd (k @ CHR '':'' # SP # v)) \<and>
       \<not> isSpaceOrTab (last (k @ CHR '':'' # SP # v)))"
      by (simp add: validHeaderValue_def)
  qed
  with False show ?thesis by simp
qed

lemma readContinuation_none: "noContinuation ls \<Longrightarrow> readContinuation buf ls = (buf, ls)"
  by (cases ls) (auto simp: noContinuation_def)

lemma readContinuedLineSlice_kv:
  assumes "ValidHeaderFieldName k" "validHeaderValue v" "noContinuation rest"
  shows "readContinuedLineSlice ((k @ CHR '':'' # SP # v) # rest) =
           (Inr (k @ CHR '':'' # (if v = [] then [] else SP # v)), rest)"
  using assms field_name_facts(1)[of k]
  by (simp add: readContinuedLineSlice_def trim_kv readContinuation_none)

lemma readMIMEHeaderLoop_kv:
  assumes "ValidHeaderFieldName k" "validHeaderValue v" "noContinuation rest"
  shows "readMIMEHeaderLoop m ((k @ CHR '':'' # SP # v) # rest) =
           readMIMEHeaderLoop (header_add m (canonicalize True k) v) rest"
proof -
  have v: "list_all validHeaderValueByte (if v = [] then [] else SP # v)"
    "dropWhile isSpaceOrTab (if v = [] then [] else SP # v) = v"
    using assms(2) by (auto simp: validHeaderValue_def validHeaderValueByte_def isSpaceOrTab_def
        intro: dropWhile_id)
  show ?thesis
    apply (subst readMIMEHeaderLoop.simps)
    using assms field_name_facts(1,3)[of k] v
    by (simp add: readContinuedLineSlice_kv Cut_colon canonicalMIMEHeaderKey_valid)
qed

lemma readMIMEHeaderLoop_blank: "readMIMEHeaderLoop m ([] # rest) = (m, None)"
  by (subst readMIMEHeaderLoop.simps) (simp add: readContinuedLineSlice_def)

lemma validPairs_of_entries: "validHeaderEntries h \<Longrightarrow> list_all validPair (header_pairs h)"
  by (induction h) (auto simp: validHeaderEntries_def header_pairs_def validPair_def list_all_iff)

lemma Header_Write_entries:
  "validHeaderEntries h \<Longrightarrow>
     concat (map (\<lambda>(k, vs). if ValidHeaderFieldName k then concat (map (header_line k) vs) else []) h)
       = concat (map (\<lambda>p. kv_line p @ [CR, LF]) (header_pairs h))"
proof (induction h)
  case Nil
  then show ?case by (simp add: header_pairs_def)
next
  case (Cons e h)
  obtain k vs where e: "e = (k, vs)" by (cases e)
  from Cons.prems e have k: "ValidHeaderFieldName k" and vs: "list_all validHeaderValue vs"
    and h: "validHeaderEntries h"
    by (simp_all add: validHeaderEntries_def)
  from vs have "concat (map (header_line k) vs) = concat (map (\<lambda>p. kv_line p @ [CR, LF]) (map (Pair k) vs))"
    by (induction vs) (simp_all add: header_line_valid kv_line_def)
  with Cons.IH[OF h] e k show ?case
    by (simp add: header_pairs_def)
qed

lemma validHeaderEntries_sort: "validHeaderEntries (sort_key fst h) = validHeaderEntries h"
  by (simp add: validHeaderEntries_def list_all_iff)

lemma Header_Write_valid:
  "validHeaderEntries h \<Longrightarrow>
     Header_Write h = concat (map (\<lambda>p. kv_line p @ [CR, LF]) (header_pairs (sort_key fst h)))"
  unfolding Header_Write_def
  by (rule Header_Write_entries) (simp add: validHeaderEntries_sort)

lemma kv_line_no_LF: "validPair p \<Longrightarrow> LF \<notin> set (kv_line p)"
  using field_name_facts(4)[of "fst p"] valid_value_no_break[of "snd p"]
  by (auto simp: validPair_def kv_line_def validHeaderValue_def)

lemma splitLines_block:
  "list_all validPair ps \<Longrightarrow>
     splitLines [] (concat (map (\<lambda>p. kv_line p @ [CR, LF]) ps) @ [CR, LF]) = map kv_line ps @ [[]]"
proof (induction ps)
  case Nil
  show ?case by (simp add: dropCR_def)
next
  case (Cons p ps)
  then have "LF \<notin> set (kv_line p)" by (simp add: kv_line_no_LF)
  from splitLines_line[OF this] Cons show ?case by simp
qed

lemma noContinuation_block: "list_all validPair ps \<Longrightarrow> noContinuation (map kv_line ps @ [[]])"
proof (cases ps)
  case Nil
  then show ?thesis by (simp add: noContinuation_def)
next
  case (Cons p ps')
  assume "list_all validPair ps"
  with Cons have "ValidHeaderFieldName (fst p)" by (simp add: validPair_def)
  from field_name_facts(1,2)[OF this] Cons show ?thesis
    by (simp add: noContinuation_def kv_line_def)
qed

lemma readMIMEHeaderLoop_pair:
  "validPair p \<Longrightarrow> noContinuation rest \<Longrightarrow>
     readMIMEHeaderLoop m (kv_line p # rest) =
       readMIMEHeaderLoop (header_add m (canonicalize True (fst p)) (snd p)) rest"
  by (simp add: kv_line_def validPair_def readMIMEHeaderLoop_kv)

lemma readMIMEHeaderLoop_block:
  "list_all validPair ps \<Longrightarrow>
     readMIMEHeaderLoop m (map kv_line ps @ [[]]) =
       (foldl (\<lambda>m p. header_add m (canonicalize True (fst p)) (snd p)) m ps, None)"
proof (induction ps arbitrary: m)
  case Nil
  show ?case by (simp add: readMIMEHeaderLoop_blank)
next
  case (Cons p ps)
  then have ps: "list_all validPair ps" and p: "validPair p"
    by simp_all
  show ?case
    by (simp add: readMIMEHeaderLoop_pair[OF p noContinuation_block[OF ps]] Cons.IH[OF ps])
qed

lemma ReadMIMEHeader_block:
  assumes "list_all validPair ps"
  shows "ReadMIMEHeader (map kv_line ps @ [[]]) =
       (foldl (\<lambda>m p. header_add m (canonicalize True (fst p)) (snd p)) [] ps, None)"
proof -
  from noContinuation_block[OF assms] obtain l ls where
    l: "map kv_line ps @ [[]] = l # ls" "l = [] \<or> \<not> isSpaceOrTab (hd l)"
    by (cases "map kv_line ps @ [[]]") (auto simp: noContinuation_def)
  have "ReadMIMEHeader (l # ls) = readMIMEHeaderLoop [] (l # ls)"
    using l(2) by (auto simp: ReadMIMEHeader_def)
  with l(1) readMIMEHeaderLoop_block[OF assms, of "[]"] show ?thesis by simp
qed

lemma map_of_header_add:
  "map_of (header_add m k v) =
     (map_of m)(k \<mapsto> (case map_of m k of None \<Rightarrow> [v] | Some vv \<Rightarrow> vv @ [v]))"
  by (auto simp: header_add_def update_conv' map_add_def fun_eq_iff split: option.splits)

lemma fold_values:
  "vs \<noteq> [] \<Longrightarrow>
     map_of (foldl (\<lambda>m v. header_add m k v) m vs) =
       (map_of m)(k \<mapsto> (case map_of m k of None \<Rightarrow> [] | Some vv \<Rightarrow> vv) @ vs)"
proof (induction vs arbitrary: m)
  case Nil
  then show ?case by simp
next
  case (Cons v vs)
  show ?case
  proof (cases "vs = []")
    case True
    then show ?thesis by (auto simp: map_of_header_add split: option.splits)
  next
    case False
    from Cons.IH[OF False, of "header_add m k v"] show ?thesis
      by (auto simp: map_of_header_add split: option.splits)
  qed
qed

lemma foldl_pairs_Cons:
  "foldl (\<lambda>m p. header_add m (c (fst p)) (snd p)) m (header_pairs ((k, vs) # h)) =
     foldl (\<lambda>m p. header_add m (c (fst p)) (snd p)) (foldl (\<lambda>m v. header_add m (c k) v) m vs)
       (header_pairs h)"
proof -
  have "foldl (\<lambda>m p. header_add m (c (fst p)) (snd p)) m (map (Pair k) vs) =
        foldl (\<lambda>m v. header_add m (c k) v) m vs" for m
    by (induction vs arbitrary: m) simp_all
  then show ?thesis by (simp add: header_pairs_def)
qed

lemma fold_entries:
  assumes "list_all (\<lambda>e. snd e \<noteq> []) h" "distinct (map (\<lambda>e. c (fst e)) h)"
    and "\<forall>e \<in> set h. map_of m (c (fst e)) = None"
  shows "map_of (foldl (\<lambda>m p. header_add m (c (fst p)) (snd p)) m (header_pairs h)) =
           map_of m ++ map_of (map (\<lambda>(k, vs). (c k, vs)) h)"
  using assms
proof (induction h arbitrary: m)
  case Nil
  then show ?case by (simp add: header_pairs_def)
next
  case (Cons e h)
  obtain k vs where e: "e = (k, vs)" by (cases e)
  from Cons.prems e have vs: "vs \<noteq> []" and h: "list_all (\<lambda>e. snd e \<noteq> []) h"
    and d: "distinct (map (\<lambda>e. c (fst e)) h)" and k: "c k \<notin> (\<lambda>e. c (fst e)) ` set h"
    and mk: "map_of m (c k) = None" and mh: "\<forall>e \<in> set h. map_of m (c (fst e)) = None"
    by auto
  let ?m1 = "foldl (\<lambda>m v. header_add m (c k) v) m vs"
  have m1: "map_of ?m1 = (map_of m)(c k \<mapsto> vs)"
    using fold_values[OF vs, of "c k" m] mk by simp
  have "\<forall>e \<in> set h. map_of ?m1 (c (fst e)) = None"
    using mh k by (force simp: m1 image_iff)
  from Cons.IH[OF h d this]
  have "map_of (foldl (\<lambda>m p. header_add m (c (fst p)) (snd p)) ?m1 (header_pairs h)) =
          (map_of m)(c k \<mapsto> vs) ++ map_of (map (\<lambda>(k, vs). (c k, vs)) h)"
    unfolding m1 .
  moreover have "map_of (map (\<lambda>(k, vs). (c k, vs)) h) (c k) = None"
    using k by (force simp: map_of_eq_None_iff)
  ultimately show ?case
    unfolding e foldl_pairs_Cons
    by (auto simp: fun_eq_iff map_add_def split: option.splits)
qed

lemma map_of_canonicalHeader_sort:
  assumes "distinct (map (\<lambda>e. canonicalize True (fst e)) h)"
  shows "map_of (canonicalHeader (sort_key fst h)) = map_of (canonicalHeader h)"
proof -
  have fst_c: "map fst (canonicalHeader g) = map (\<lambda>e. canonicalize True (fst e)) g" for g
    by (simp add: canonicalHeader_def case_prod_unfold)
  have d1: "distinct (map fst (canonicalHeader h))"
    using assms by (simp add: fst_c)
  have "distinct (map (\<lambda>e. canonicalize True (fst e)) (sort_key fst h))"
    using assms by (simp add: distinct_map)
  then have d2: "distinct (map fst (canonicalHeader (sort_key fst h)))"
    by (simp add: fst_c)
  have "set (canonicalHeader (sort_key fst h)) = set (canonicalHeader h)"
    by (simp add: canonicalHeader_def)
  with d1 d2 show ?thesis
    by (simp add: map_of_inject_set)
qed

lemma digit_char_facts:
  assumes "d < 10"
  shows "isDigit (digit_char d)" "digit_val (digit_char d) = int d"
    "digit_char d \<noteq> CHR ''-''" "digit_char d \<noteq> CHR ''+''" "digit_char d \<noteq> SP" "digit_char d \<noteq> LF"
proof -
  have n: "(of_char (digit_char d) :: nat) = 48 + d"
    using assms by (simp add: digit_char_def)
  then show "isDigit (digit_char d)"
    using assms by (simp add: isDigit_def less_eq_char_def)
  have "(of_char (digit_char d) :: int) = int (of_char (digit_char d))"
    by (simp add: of_nat_of_char)
  with n show "digit_val (digit_char d) = int d"
    by (simp add: digit_val_def)
  from n show "digit_char d \<noteq> CHR ''-''" "digit_char d \<noteq> CHR ''+''" "digit_char d \<noteq> SP"
    "digit_char d \<noteq> LF"
    by auto
qed

lemma decimal_facts:
  "decimal n \<noteq> [] \<and> list_all isDigit (decimal n) \<and> parse_digits (decimal n) = int n"
proof (induction n rule: decimal.induct)
  case (1 n)
  show ?case
  proof (cases "n < 10")
    case True
    then show ?thesis
      by (simp add: decimal.simps[of n] digit_char_facts parse_digits_def)
  next
    case False
    have m: "n mod 10 < 10" by simp
    from False 1 have IH: "list_all isDigit (decimal (n div 10))"
      "parse_digits (decimal (n div 10)) = int (n div 10)"
      by simp_all
    from False IH m show ?thesis
      by (simp add: decimal.simps[of n] digit_char_facts parse_digits_def zdiv_int zmod_int)
  qed
qed

lemma digit_not_sign: "isDigit c \<Longrightarrow> c \<noteq> CHR ''-'' \<and> c \<noteq> CHR ''+'' \<and> c \<noteq> SP \<and> c \<noteq> LF"
  by (auto simp: isDigit_def less_eq_char_def)

lemma Atoi_digits:
  assumes "ds \<noteq> []" "list_all isDigit ds" "0 \<le> parse_digits ds" "parse_digits ds < 2 ^ 63"
  shows "Atoi ds = Some (parse_digits ds)"
proof -
  from assms(1,2) have "isDigit (hd ds)" by (cases ds) simp_all
  from digit_not_sign[OF this] have h: "hd ds \<noteq> CHR ''-''" "hd ds \<noteq> CHR ''+''" by simp_all
  have r: "\<not> parse_digits ds < - (2 ^ 63)" "\<not> 2 ^ 63 \<le> parse_digits ds"
    using assms(3,4) by simp_all
  show ?thesis
    unfolding Atoi_def Let_def
    by (simp only: h assms(1,2) r simp_thms if_True if_False)
qed

lemma Atoi_minus_digits:
  assumes "ds \<noteq> []" "list_all isDigit ds" "0 \<le> parse_digits ds" "parse_digits ds \<le> 2 ^ 63"
  shows "Atoi (CHR ''-'' # ds) = Some (- parse_digits ds)"
proof -
  have r: "\<not> - parse_digits ds < - (2 ^ 63)" "\<not> 2 ^ 63 \<le> - parse_digits ds"
    using assms(3,4) by simp_all
  show ?thesis
    unfolding Atoi_def Let_def
    by (simp only: list.sel assms(1,2) r simp_thms if_True if_False list.distinct)
qed

lemma Atoi_Sprintf_d:
  assumes "- (2 ^ 63) \<le> n" "n < 2 ^ 63"
  shows "Atoi (Sprintf_d n) = Some n"
proof (cases "n < 0")
  case True
  have p: "parse_digits (decimal (nat (- n))) = - n"
    using decimal_facts[of "nat (- n)"] True by simp
  have "Atoi (CHR ''-'' # decimal (nat (- n))) = Some (- parse_digits (decimal (nat (- n))))"
  proof (rule Atoi_minus_digits)
    show "decimal (nat (- n)) \<noteq> []" "list_all isDigit (decimal (nat (- n)))"
      using decimal_facts[of "nat (- n)"] by simp_all
    show "0 \<le> parse_digits (decimal (nat (- n)))" using p True by simp
    show "parse_digits (decimal (nat (- n))) \<le> 2 ^ 63" using p assms(1) by simp
  qed
  with p True show ?thesis by (simp add: Sprintf_d_def)
next
  case False
  have p: "parse_digits (decimal (nat n)) = n"
    using decimal_facts[of "nat n"] False by simp
  have "Atoi (decimal (nat n)) = Some (parse_digits (decimal (nat n)))"
  proof (rule Atoi_digits)
    show "decimal (nat n) \<noteq> []" "list_all isDigit (decimal (nat n))"
      using decimal_facts[of "nat n"] by simp_all
    show "0 \<le> parse_digits (decimal (nat n))" using p False by simp
    show "parse_digits (decimal (nat n)) < 2 ^ 63" using p assms(2) by simp
  qed
  with p False show ?thesis by (simp add: Sprintf_d_def)
qed

lemma Sprintf_d_chars: "SP \<notin> set (Sprintf_d n) \<and> LF \<notin> set (Sprintf_d n)"
proof -
  have "SP \<notin> set (decimal m) \<and> LF \<notin> set (decimal m)" for m
    using decimal_facts[of m] digit_not_sign by (auto simp: list_all_iff)
  then show ?thesis by (simp add: Sprintf_d_def)
qed

lemma split_at_sep:
  "c \<notin> set a \<Longrightarrow>
     takeWhile (\<lambda>x. x \<noteq> c) (a @ c # r) = a \<and> dropWhile (\<lambda>x. x \<noteq> c) (a @ c # r) = c # r"
  by (induction a) auto

lemma SplitN_3:
  assumes "SP \<notin> set a" "SP \<notin> set b"
  shows "SplitN (a @ SP # b @ SP # c) SP 3 = [a, b, c]"
proof -
  have 3: "(3::nat) = Suc (Suc (Suc 0))" by simp
  show ?thesis
    unfolding 3 using split_at_sep[OF assms(1)] split_at_sep[OF assms(2)]
    by simp
qed

text \<open>The header block of a request or response, written and read back.\<close>

lemma header_block_roundtrip:
  assumes "validHeaderEntries h" "distinct (map (\<lambda>e. canonicalize True (fst e)) h)"
  shows "\<exists>m. ReadMIMEHeader (splitLines [] (headersToWriter h)) = (m, None) \<and>
             map_of m = map_of (canonicalHeader h)"
proof -
  let ?ps = "header_pairs (sort_key fst h)"
  let ?m = "foldl (\<lambda>m p. header_add m (canonicalize True (fst p)) (snd p)) [] ?ps"
  have vs: "validHeaderEntries (sort_key fst h)"
    using assms(1) by (simp add: validHeaderEntries_sort)
  have ps: "list_all validPair ?ps"
    by (rule validPairs_of_entries[OF vs])
  have lines: "splitLines [] (headersToWriter h) = map kv_line ?ps @ [[]]"
    by (simp add: headersToWriter_def Header_Write_valid[OF assms(1)] splitLines_block[OF ps])
  have read: "ReadMIMEHeader (map kv_line ?ps @ [[]]) = (?m, None)"
    by (rule ReadMIMEHeader_block[OF ps])
  have ne: "list_all (\<lambda>e. snd e \<noteq> []) (sort_key fst h)"
    using vs by (auto simp: validHeaderEntries_def list_all_iff)
  have d: "distinct (map (\<lambda>e. canonicalize True (fst e)) (sort_key fst h))"
    using assms(2) by (simp add: distinct_map)
  have "map_of ?m = map_of [] ++ map_of (map (\<lambda>(k, vs). (canonicalize True k, vs)) (sort_key fst h))"
    by (rule fold_entries[OF ne d]) simp
  then have "map_of ?m = map_of (canonicalHeader (sort_key fst h))"
    by (simp add: canonicalHeader_def)
  with map_of_canonicalHeader_sort[OF assms(2)] have "map_of ?m = map_of (canonicalHeader h)"
    by simp
  with lines read show ?thesis by simp
qed

lemma method_facts:
  assumes "validMethod m"
  shows "m \<noteq> []" "SP \<notin> set m" "LF \<notin> set m"
  using assms token_not_special by (auto simp: validMethod_def list_all_iff)

text \<open>
  The request record of a valid request, written and read back: the method and the URL
  are the same, the header block is the same under case-insensitive comparison of names,
  and the protocol is the \<open>HTTP/1.1\<close> of \<open>http.NewRequest\<close>, whatever it was.
\<close>

lemma request_roundtrip:
  assumes "validRequest E h"
  shows "\<exists>hb r. requestBytes E h = Inr hb \<and> readRequest E hb = (Some r, None) \<and>
            Method r = Method h \<and> URL r = URL h \<and> Proto r = ''HTTP/1.1'' \<and>
            map_of (request.Header r) = map_of (canonicalHeader (request.Header h))"
proof -
  let ?M = "Method h" and ?U = "url_String E (URL h)" and ?P = "Proto h"
  let ?line = "?M @ SP # ?U @ SP # ?P"
  let ?hb = "?line @ [CR, LF] @ headersToWriter (request.Header h)"
  from assms have v: "validMethod ?M" "IsAbs (URL h)" "url_Parse E ?U = Inr (URL h)"
    "removeEmptyPort (url.Host (URL h)) = url.Host (URL h)" "SP \<notin> set ?U" "LF \<notin> set ?U"
    "LF \<notin> set ?P" "validHeaderEntries (request.Header h)"
    "distinct (map (\<lambda>e. canonicalize True (fst e)) (request.Header h))"
    by (simp_all add: validRequest_def)
  have bytes: "requestBytes E h = Inr ?hb"
    using v(2) by (simp add: requestBytes_def)
  have noLF: "LF \<notin> set ?line"
    using method_facts(3)[OF v(1)] v(6,7) by simp
  have lines: "textproto_NewReader ?hb = ?line # splitLines [] (headersToWriter (request.Header h))"
    unfolding textproto_NewReader_def by (rule splitLines_line[OF noLF])
  have split: "SplitN ?line SP 3 = [?M, ?U, ?P]"
    by (rule SplitN_3[OF method_facts(2)[OF v(1)] v(5)])
  from header_block_roundtrip[OF v(8,9)] obtain m where
    m: "ReadMIMEHeader (splitLines [] (headersToWriter (request.Header h))) = (m, None)"
       "map_of m = map_of (canonicalHeader (request.Header h))"
    by blast
  have new: "NewRequest E ?M ?U =
      Inr \<lparr>Method = ?M, URL = URL h, Proto = ''HTTP/1.1'', Header = [],
           Host = url.Host (URL h), RequestURI = []\<rparr>"
    using v(1,3,4) method_facts(1)[OF v(1)] by (simp add: NewRequest_def Let_def)
  have "readRequest E ?hb =
      (Some \<lparr>Method = ?M, URL = URL h, Proto = ''HTTP/1.1'', Header = m,
             Host = url.Host (URL h), RequestURI = []\<rparr>, None)"
    unfolding readRequest_def Let_def lines
    by (simp add: ReadLine_def split m(1) new)
  with bytes m(2) show ?thesis by simp
qed

lemma canonicalHeader_id:
  "list_all (\<lambda>e. canonicalize True (fst e) = fst e) h \<Longrightarrow> canonicalHeader h = h"
  unfolding canonicalHeader_def by (induction h) auto

text \<open>
  C6. For every status code (a Go \<open>int\<close>) and every valid header block, when the reason
  phrase of the code has no line break, decoding the bytes \<open>storeHeader\<close> writes succeeds and
  yields the same status code and the same header block.
\<close>

theorem response_header_roundtrip:
  assumes "validStatusCode code" "validHeaderBlock h" "LF \<notin> set (StatusText E code)"
  shows "snd (readResponseHeaders (responseHeaderBytes E code h)) = None
         \<and> Header.StatusCode (fst (readResponseHeaders (responseHeaderBytes E code h))) = code
         \<and> map_of (Header.Header (fst (readResponseHeaders (responseHeaderBytes E code h)))) = map_of h"
proof -
  define line where "line = ''HTTP/1.1'' @ SP # Sprintf_d code @ SP # StatusText E code"
  from assms(2) have h: "validHeaderEntries h" "distinct (map fst h)"
    "list_all (\<lambda>e. canonicalize True (fst e) = fst e) h"
    by (simp_all add: validHeaderBlock_def)
  have c: "canonicalHeader h = h" by (rule canonicalHeader_id[OF h(3)])
  have me: "map (\<lambda>e. canonicalize True (fst e)) h = map fst h"
    using h(3) by (induction h) auto
  have d: "distinct (map (\<lambda>e. canonicalize True (fst e)) h)"
    unfolding me by (rule h(2))
  have bytes: "responseHeaderBytes E code h = line @ [CR, LF] @ headersToWriter h"
    by (simp add: responseHeaderBytes_def line_def)
  have noLF: "LF \<notin> set line"
    using Sprintf_d_chars[of code] assms(3) by (simp add: line_def)
  have lines: "textproto_NewReader (line @ [CR, LF] @ headersToWriter h) =
      line # splitLines [] (headersToWriter h)"
    unfolding textproto_NewReader_def by (rule splitLines_line[OF noLF])
  have split: "SplitN line SP 3 = [''HTTP/1.1'', Sprintf_d code, StatusText E code]"
    unfolding line_def by (rule SplitN_3) (use Sprintf_d_chars[of code] in simp_all)
  have atoi: "Atoi (Sprintf_d code) = Some code"
    using assms(1) by (intro Atoi_Sprintf_d) (simp_all add: validStatusCode_def)
  from header_block_roundtrip[OF h(1) d] c obtain m where
    m: "ReadMIMEHeader (splitLines [] (headersToWriter h)) = (m, None)" "map_of m = map_of h"
    by auto
  have "readResponseHeaders (line @ [CR, LF] @ headersToWriter h) =
      (\<lparr>Header = m, StatusCode = code\<rparr>, None)"
    unfolding readResponseHeaders_def Let_def lines
    by (simp add: ReadLine_def split atoi m(1))
  with m(2) show ?thesis unfolding bytes by simp
qed

theorem response_header_roundtrip_witness:
  "snd (readResponseHeaders (responseHeaderBytes example_env 200 example_header)) = None
   \<and> Header.StatusCode (fst (readResponseHeaders (responseHeaderBytes example_env 200 example_header))) = 200
   \<and> map_of (Header.Header (fst (readResponseHeaders (responseHeaderBytes example_env 200 example_header))))
       = map_of example_header"
proof -
  have c: "validStatusCode 200" by (simp add: validStatusCode_def)
  have h: "validHeaderBlock example_header" by code_simp
  have t: "LF \<notin> set (StatusText example_env 200)" by code_simp
  show ?thesis by (rule response_header_roundtrip[OF c h t])
qed

text \<open>
  C1. A request with protocol \<open>HTTP/1.0\<close> is written with that protocol on its request
  line, and \<open>readRequest\<close> decodes those bytes to a request with the same method, URL and
  header block and the protocol \<open>HTTP/1.1\<close>: the third field of the line is not used.
\<close>

theorem readRequest_drops_protocol:
  "requestBytes example_env (example_request ''/a'' ''HTTP/1.0'') =
     Inr (''GET http://example.com/a HTTP/1.0'' @ [CR, LF] @ ''Host: example.com'' @ [CR, LF, CR, LF])
   \<and> readRequest example_env
        (''GET http://example.com/a HTTP/1.0'' @ [CR, LF] @ ''Host: example.com'' @ [CR, LF, CR, LF]) =
       (Some (example_request ''/a'' ''HTTP/1.1''), None)"
  by code_simp

lemma example_request_valid: "validRequest example_env (example_request ''/a'' ''HTTP/1.0'')"
  by code_simp

end
